theory Spec2Isabelle
  imports Main "HOL-Library.Word" "HOL-Library.Sublist"
begin

unbundle bit_operations_syntax

section \<open>SimpleShader: data model\<close>

text \<open>
  The six shader classes of the source (\<^verbatim>\<open>SimpleVertexShader\<close>, \<^verbatim>\<open>SimplePixelShader\<close>,
  \<^verbatim>\<open>SimpleDomainShader\<close>, \<^verbatim>\<open>SimpleHullShader\<close>, \<^verbatim>\<open>SimpleGeometryShader\<close>,
  \<^verbatim>\<open>SimpleComputeShader\<close>) share the base class \<^verbatim>\<open>ISimpleShader\<close>. One object is
  modelled as one record that carries a stage tag, the base-class fields and the fields of
  the derived classes. The Direct3D device context is a log of the calls issued to it, the
  device is a log of the buffer creations requested from it, and the console is a log of
  the diagnostics printed. Byte counts, offsets, indices and bind slots are
  \<^verbatim>\<open>unsigned int\<close> in the source and never take part in arithmetic there; they are
  natural numbers here. Values the source does arithmetic on (the stream-out stride, the
  buffer width, the dispatch group counts) are 32-bit words.
\<close>

type_synonym byte = "8 word"
type_synonym uint = "32 word"

datatype stage = Vertex | Pixel | Domain | Hull | Geometry | Compute

datatype D3D_CBUFFER_TYPE =
  D3D11_CT_CBUFFER | D3D11_CT_TBUFFER | D3D11_CT_INTERFACE_POINTERS | D3D11_CT_RESOURCE_BIND_INFO

datatype D3D_SHADER_INPUT_TYPE =
  D3D_SIT_CBUFFER | D3D_SIT_TBUFFER | D3D_SIT_TEXTURE | D3D_SIT_SAMPLER
| D3D_SIT_UAV_RWTYPED | D3D_SIT_STRUCTURED | D3D_SIT_UAV_RWSTRUCTURED
| D3D_SIT_BYTEADDRESS | D3D_SIT_UAV_RWBYTEADDRESS | D3D_SIT_UAV_APPEND_STRUCTURED
| D3D_SIT_UAV_CONSUME_STRUCTURED | D3D_SIT_UAV_RWSTRUCTURED_WITH_COUNTER

datatype D3D_REGISTER_COMPONENT_TYPE =
  D3D_REGISTER_COMPONENT_UNKNOWN | D3D_REGISTER_COMPONENT_UINT32
| D3D_REGISTER_COMPONENT_SINT32 | D3D_REGISTER_COMPONENT_FLOAT32

subsection \<open>What shader reflection reports\<close>

record D3D11_SHADER_VARIABLE_DESC =
  var_Name :: string
  StartOffset :: nat
  var_Size :: nat

record D3D11_SHADER_BUFFER_DESC =
  buf_Name :: string
  buf_Type :: D3D_CBUFFER_TYPE
  buf_Size :: nat
  buf_Variables :: "D3D11_SHADER_VARIABLE_DESC list"

record D3D11_SHADER_INPUT_BIND_DESC =
  res_Name :: string
  res_Type :: D3D_SHADER_INPUT_TYPE
  BindPoint :: nat

record D3D11_SIGNATURE_PARAMETER_DESC =
  SemanticName :: string
  SemanticIndex :: nat
  Mask :: byte
  ComponentType :: D3D_REGISTER_COMPONENT_TYPE
  Stream :: nat

text \<open>
  \<^verbatim>\<open>ID3D11ShaderReflection\<close>: the lists stand for the counts of \<^verbatim>\<open>D3D11_SHADER_DESC\<close>
  together with the indexed getters; \<open>GetResourceBindingDescByName\<close> and
  \<open>GetThreadGroupSize\<close> are the methods of the same name.
\<close>

record ShaderReflection =
  BoundResources :: "D3D11_SHADER_INPUT_BIND_DESC list"
  ConstantBuffers :: "D3D11_SHADER_BUFFER_DESC list"
  InputParameters :: "D3D11_SIGNATURE_PARAMETER_DESC list"
  OutputParameters :: "D3D11_SIGNATURE_PARAMETER_DESC list"
  GetResourceBindingDescByName :: "string \<Rightarrow> D3D11_SHADER_INPUT_BIND_DESC"
  GetThreadGroupSize :: "uint \<times> uint \<times> uint \<times> uint"

subsection \<open>The objects the shader owns\<close>

record SimpleShaderVariable =
  ByteOffset :: nat
  Size :: nat
  ConstantBufferIndex :: nat

record SimpleSRV =
  srv_Index :: nat
  srv_BindIndex :: nat

record SimpleSampler =
  samp_Index :: nat
  samp_BindIndex :: nat

text \<open>
  \<open>ConstantBuffer\<close> is the GPU buffer object: \<open>Some w\<close> is a buffer of \<open>w\<close> bytes,
  \<open>None\<close> the null pointer left behind by a failed \<^verbatim>\<open>CreateBuffer\<close>.
  \<open>LocalDataBuffer\<close> is the staging array.
\<close>

record SimpleConstantBuffer =
  Name :: string
  cb_Size :: nat
  BindIndex :: nat
  cb_Type :: D3D_CBUFFER_TYPE
  ConstantBuffer :: "nat option"
  LocalDataBuffer :: "byte list"
  Variables :: "SimpleShaderVariable list"

subsection \<open>Effects\<close>

datatype D3D11_INPUT_CLASSIFICATION = D3D11_INPUT_PER_VERTEX_DATA | D3D11_INPUT_PER_INSTANCE_DATA

datatype DXGI_FORMAT =
  DXGI_FORMAT_UNKNOWN
| DXGI_FORMAT_R32_UINT | DXGI_FORMAT_R32_SINT | DXGI_FORMAT_R32_FLOAT
| DXGI_FORMAT_R32G32_UINT | DXGI_FORMAT_R32G32_SINT | DXGI_FORMAT_R32G32_FLOAT
| DXGI_FORMAT_R32G32B32_UINT | DXGI_FORMAT_R32G32B32_SINT | DXGI_FORMAT_R32G32B32_FLOAT
| DXGI_FORMAT_R32G32B32A32_UINT | DXGI_FORMAT_R32G32B32A32_SINT | DXGI_FORMAT_R32G32B32A32_FLOAT

record D3D11_INPUT_ELEMENT_DESC =
  el_SemanticName :: string
  el_SemanticIndex :: nat
  Format :: DXGI_FORMAT
  InputSlot :: nat
  InputSlotClass :: D3D11_INPUT_CLASSIFICATION
  InstanceDataStepRate :: nat

record D3D11_SO_DECLARATION_ENTRY =
  so_Stream :: nat
  so_SemanticName :: string
  so_SemanticIndex :: nat
  StartComponent :: byte
  ComponentCount :: byte
  OutputSlot :: byte

text \<open>
  An input layout is either the one handed to the constructor or one created by the
  device from a list of element descriptions.
\<close>

datatype ID3D11InputLayout =
  CustomLayout nat
| CreatedLayout "D3D11_INPUT_ELEMENT_DESC list"

text \<open>Calls on \<^verbatim>\<open>ID3D11DeviceContext\<close>, in the order issued. Resource handles are numbers.\<close>

datatype context_call =
  UpdateSubresource "nat option" "byte list"
| IASetInputLayout "ID3D11InputLayout option"
| SetShader_call stage
| SetConstantBuffers stage nat "nat option"
| SetShaderResources stage nat nat
| SetSamplers stage nat nat
| CSSetUnorderedAccessViews nat nat uint
| Dispatch uint uint uint
| SOSetTargets nat

text \<open>
  Calls on \<^verbatim>\<open>ID3D11Device\<close> whose arguments the shader computes: a buffer creation with
  the requested byte width, an input-layout creation with the element descriptions, and a
  stream-output shader creation with the declaration and whether a stream is rasterized.
\<close>

datatype device_call =
  CreateBuffer nat
| CreateInputLayout "D3D11_INPUT_ELEMENT_DESC list"
| CreateGeometryShaderWithStreamOutput "D3D11_SO_DECLARATION_ENTRY list" bool

text \<open>
  Diagnostics: each constructor stands for one message of the source, with the name it
  prints. The text itself is not modelled.
\<close>

datatype diagnostic =
  Error_LoadingFile string
| Error_CreatingShader string
| Error_StreamOut
| Warning_VariableNotFound string
| Warning_VariableTooSmall string
| Warning_SRVNotFound stage string
| Warning_SamplerNotFound stage string
| Warning_UAVNotFound string

record SimpleShader =
  kind :: stage
  ReportErrors :: bool
  ReportWarnings :: bool
  console :: "diagnostic list"
  deviceContext :: "context_call list"
  device :: "device_call list"
  shaderValid :: bool
  shader :: bool
  constantBuffers :: "SimpleConstantBuffer list"
  shaderResourceViews :: "SimpleSRV list"
  samplerStates :: "SimpleSampler list"
  varTable :: "string \<rightharpoonup> SimpleShaderVariable"
  cbTable :: "string \<rightharpoonup> nat"
  samplerTable :: "string \<rightharpoonup> SimpleSampler"
  textureTable :: "string \<rightharpoonup> SimpleSRV"
  inputLayout :: "ID3D11InputLayout option"
  perInstanceCompatible :: bool
  useStreamOut :: bool
  allowStreamOutRasterization :: bool
  streamOutVertexSize :: uint
  threadsTotal :: uint
  threadsX :: uint
  threadsY :: uint
  threadsZ :: uint
  uavTable :: "string \<rightharpoonup> nat"

text \<open>
  \<open>constantBufferCount\<close> of the source is the length of \<open>constantBuffers\<close>: the two are
  set together when the array is allocated and reset together in \<open>CleanUp\<close>.
  \<open>cbTable\<close> holds pointers into the array in the source, indices here.
\<close>

definition constantBufferCount :: "SimpleShader \<Rightarrow> nat" where
  "constantBufferCount s = length (constantBuffers s)"

section \<open>Lookup and staging\<close>

text \<open>
  \<^verbatim>\<open>FindVariable(name, size)\<close>: null when the name is not a key of the table, or when a
  positive size differs from the variable's size; \<open>-1\<close> bypasses the size check.
\<close>

definition FindVariable :: "SimpleShader \<Rightarrow> string \<Rightarrow> int \<Rightarrow> SimpleShaderVariable option" where
  "FindVariable s name sz =
     (case varTable s name of
        None \<Rightarrow> None
      | Some var \<Rightarrow> if sz > 0 \<and> int (Size var) \<noteq> sz then None else Some var)"

definition FindConstantBuffer :: "SimpleShader \<Rightarrow> string \<Rightarrow> nat option" where
  "FindConstantBuffer s name = cbTable s name"

text \<open>
  \<^verbatim>\<open>memcpy(dst + off, src, n)\<close> on arrays given as lists. The C function has undefined
  behaviour when it reads past \<open>src\<close> or writes past \<open>dst\<close>; that is the result \<open>None\<close>.
\<close>

definition memcpy :: "byte list \<Rightarrow> nat \<Rightarrow> byte list \<Rightarrow> nat \<Rightarrow> byte list option" where
  "memcpy dst off src n =
     (if off + n \<le> length dst \<and> n \<le> length src
      then Some (take off dst @ take n src @ drop (off + n) dst)
      else None)"

definition warn :: "diagnostic \<Rightarrow> SimpleShader \<Rightarrow> SimpleShader" where
  "warn d s = (if ReportWarnings s then s\<lparr>console := console s @ [d]\<rparr> else s)"

definition err :: "diagnostic \<Rightarrow> SimpleShader \<Rightarrow> SimpleShader" where
  "err d s = (if ReportErrors s then s\<lparr>console := console s @ [d]\<rparr> else s)"

text \<open>
  \<^verbatim>\<open>SetData(name, data, size)\<close>. The result is \<open>None\<close> when the copy would leave the
  arrays (undefined behaviour in the source), otherwise the returned flag and the new state.
\<close>

definition SetData :: "SimpleShader \<Rightarrow> string \<Rightarrow> byte list \<Rightarrow> nat \<Rightarrow> (bool \<times> SimpleShader) option" where
  "SetData s name data sz =
     (case FindVariable s name (- 1) of
        None \<Rightarrow> Some (False, warn (Warning_VariableNotFound name) s)
      | Some var \<Rightarrow>
          if sz > Size var then Some (False, warn (Warning_VariableTooSmall name) s)
          else if ConstantBufferIndex var < length (constantBuffers s) then
            (case memcpy (LocalDataBuffer (constantBuffers s ! ConstantBufferIndex var))
                         (ByteOffset var) data sz of
               None \<Rightarrow> None
             | Some buf \<Rightarrow>
                 Some (True, s\<lparr>constantBuffers := (constantBuffers s)
                   [ConstantBufferIndex var :=
                      (constantBuffers s ! ConstantBufferIndex var)\<lparr>LocalDataBuffer := buf\<rparr>]\<rparr>))
          else None)"

text \<open>The staging arrays of all constant buffers, in buffer order.\<close>

definition staging :: "SimpleShader \<Rightarrow> byte list list" where
  "staging s = map LocalDataBuffer (constantBuffers s)"

section \<open>Building the program\<close>

subsection \<open>The Direct3D runtime\<close>

text \<open>
  A compiled shader blob is known here by what \<^verbatim>\<open>D3DReflect\<close> makes of it: a reflection
  interface, or nothing when the call fails and leaves the pointer null.
\<close>

record ShaderBlob =
  D3DReflect :: "ShaderReflection option"

text \<open>
  The answers of the runtime that the source branches on or stores: the blob that
  \<^verbatim>\<open>D3DReadFileToBlob\<close> finds at a path, whether the device creates a shader object of a
  stage from a blob, whether it creates an input layout, and whether it creates a buffer
  of a byte width.
\<close>

record Direct3D =
  D3DReadFileToBlob :: "string \<Rightarrow> ShaderBlob option"
  CreateShader_ok :: "stage \<Rightarrow> ShaderBlob \<Rightarrow> bool"
  CreateInputLayout_ok :: "D3D11_INPUT_ELEMENT_DESC list \<Rightarrow> bool"
  CreateBuffer_ok :: "nat \<Rightarrow> bool"

subsection \<open>Tables\<close>

text \<open>\<^verbatim>\<open>std::unordered_map::insert\<close>: a key already present keeps its value.\<close>

definition table_insert :: "('k \<rightharpoonup> 'v) \<Rightarrow> 'k \<Rightarrow> 'v \<Rightarrow> ('k \<rightharpoonup> 'v)" where
  "table_insert m k v = (if m k = None then m(k \<mapsto> v) else m)"

subsection \<open>CleanUp\<close>

text \<open>
  \<^verbatim>\<open>ISimpleShader::CleanUp\<close> frees the staging arrays and the buffer array and clears the
  four tables. It deletes the elements of \<open>shaderResourceViews\<close> and \<open>samplerStates\<close>
  but does not clear the two vectors, so their entries stay (as dangling pointers in the
  source). \<^verbatim>\<open>SimpleComputeShader::CleanUp\<close> also clears \<open>uavTable\<close>; the other derived
  classes only call the base.
\<close>

definition ISimpleShader_CleanUp :: "SimpleShader \<Rightarrow> SimpleShader" where
  "ISimpleShader_CleanUp s =
     s\<lparr>constantBuffers := [], varTable := Map.empty, cbTable := Map.empty,
       samplerTable := Map.empty, textureTable := Map.empty\<rparr>"

definition CleanUp :: "SimpleShader \<Rightarrow> SimpleShader" where
  "CleanUp s =
     (if kind s = Compute then (ISimpleShader_CleanUp s)\<lparr>uavTable := Map.empty\<rparr>
      else ISimpleShader_CleanUp s)"

subsection \<open>Vertex shader: input layout from reflection\<close>

text \<open>
  The test of the semantic name: \<open>lenDiff\<close> is a signed difference of lengths, and
  \<^verbatim>\<open>sem.compare(lenDiff, n, perInstanceStr) == 0\<close> compares the \<open>n\<close> characters of \<open>sem\<close>
  from position \<open>lenDiff\<close> with the marker.
\<close>

definition perInstanceStr :: string where
  "perInstanceStr = ''_PER_INSTANCE''"

definition isPerInstance :: "string \<Rightarrow> bool" where
  "isPerInstance sem =
     (let lenDiff = int (length sem) - int (length perInstanceStr)
      in lenDiff \<ge> 0 \<and> take (length perInstanceStr) (drop (nat lenDiff) sem) = perInstanceStr)"

text \<open>
  The format chosen from mask and component type. The element description is
  zero-initialised, so a case that assigns nothing leaves \<open>DXGI_FORMAT_UNKNOWN\<close>.
\<close>

definition by_type :: "D3D_REGISTER_COMPONENT_TYPE \<Rightarrow> DXGI_FORMAT \<Rightarrow> DXGI_FORMAT \<Rightarrow> DXGI_FORMAT \<Rightarrow> DXGI_FORMAT" where
  "by_type ct u i f =
     (if ct = D3D_REGISTER_COMPONENT_UINT32 then u
      else if ct = D3D_REGISTER_COMPONENT_SINT32 then i
      else if ct = D3D_REGISTER_COMPONENT_FLOAT32 then f
      else DXGI_FORMAT_UNKNOWN)"

definition DetermineFormat :: "byte \<Rightarrow> D3D_REGISTER_COMPONENT_TYPE \<Rightarrow> DXGI_FORMAT" where
  "DetermineFormat m ct =
     (if m = 1 then by_type ct DXGI_FORMAT_R32_UINT DXGI_FORMAT_R32_SINT DXGI_FORMAT_R32_FLOAT
      else if m \<le> 3 then by_type ct DXGI_FORMAT_R32G32_UINT DXGI_FORMAT_R32G32_SINT DXGI_FORMAT_R32G32_FLOAT
      else if m \<le> 7 then by_type ct DXGI_FORMAT_R32G32B32_UINT DXGI_FORMAT_R32G32B32_SINT DXGI_FORMAT_R32G32B32_FLOAT
      else if m \<le> 15 then by_type ct DXGI_FORMAT_R32G32B32A32_UINT DXGI_FORMAT_R32G32B32A32_SINT DXGI_FORMAT_R32G32B32A32_FLOAT
      else DXGI_FORMAT_UNKNOWN)"

text \<open>One pass of the loop body: the element description for one input parameter.\<close>

definition elementDesc :: "D3D11_SIGNATURE_PARAMETER_DESC \<Rightarrow> D3D11_INPUT_ELEMENT_DESC" where
  "elementDesc paramDesc =
     (let e = \<lparr>el_SemanticName = SemanticName paramDesc,
                el_SemanticIndex = SemanticIndex paramDesc,
                Format = DetermineFormat (Mask paramDesc) (ComponentType paramDesc),
                InputSlot = 0,
                InputSlotClass = D3D11_INPUT_PER_VERTEX_DATA,
                InstanceDataStepRate = 0\<rparr>
      in if isPerInstance (SemanticName paramDesc)
         then e\<lparr>InputSlot := 1, InputSlotClass := D3D11_INPUT_PER_INSTANCE_DATA,
                InstanceDataStepRate := 1\<rparr>
         else e)"

text \<open>
  The loop over the input parameters. It carries the vector \<open>inputLayoutDesc\<close> and the
  field \<open>perInstanceCompatible\<close>, which a per-instance entry sets.
\<close>

fun inputLayoutLoop ::
  "D3D11_SIGNATURE_PARAMETER_DESC list \<Rightarrow> D3D11_INPUT_ELEMENT_DESC list \<times> bool
     \<Rightarrow> D3D11_INPUT_ELEMENT_DESC list \<times> bool" where
  "inputLayoutLoop [] acc = acc"
| "inputLayoutLoop (paramDesc # rest) (inputLayoutDesc, pic) =
     inputLayoutLoop rest
       (inputLayoutDesc @ [elementDesc paramDesc],
        (if isPerInstance (SemanticName paramDesc) then True else pic))"

text \<open>
  \<^verbatim>\<open>SimpleVertexShader::CreateShader\<close>. The result \<open>None\<close> is the null dereference of a
  failed reflection. The outcome of \<^verbatim>\<open>CreateInputLayout\<close> is stored in \<open>hr\<close> and not read.
\<close>

definition VS_CreateShader :: "Direct3D \<Rightarrow> ShaderBlob \<Rightarrow> SimpleShader \<Rightarrow> (bool \<times> SimpleShader) option" where
  "VS_CreateShader d blob s0 =
     (let s = CleanUp s0 in
      if \<not> CreateShader_ok d Vertex blob then Some (False, s)
      else if inputLayout s \<noteq> None then Some (True, s\<lparr>shader := True\<rparr>)
      else
        (case D3DReflect blob of
           None \<Rightarrow> None
         | Some rf \<Rightarrow>
             (case inputLayoutLoop (InputParameters rf) ([], perInstanceCompatible s) of
                (inputLayoutDesc, pic) \<Rightarrow>
                  Some (True,
                    s\<lparr>shader := True,
                      perInstanceCompatible := pic,
                      device := device s @ [CreateInputLayout inputLayoutDesc],
                      inputLayout :=
                        (if CreateInputLayout_ok d inputLayoutDesc
                         then Some (CreatedLayout inputLayoutDesc) else None)\<rparr>))))"

subsection \<open>Pixel, domain and hull shaders\<close>

definition Plain_CreateShader :: "Direct3D \<Rightarrow> ShaderBlob \<Rightarrow> SimpleShader \<Rightarrow> (bool \<times> SimpleShader) option" where
  "Plain_CreateShader d blob s0 =
     (let s = CleanUp s0 in
      if CreateShader_ok d (kind s) blob then Some (True, s\<lparr>shader := True\<rparr>)
      else Some (False, s))"

subsection \<open>Geometry shader: stream output\<close>

text \<open>
  \<^verbatim>\<open>CalcComponentCount\<close>: each test \<^verbatim>\<open>(mask & b) == b\<close> is converted to 0 or 1 and added.
\<close>

definition CalcComponentCount :: "uint \<Rightarrow> uint" where
  "CalcComponentCount msk =
     (if msk AND 1 = 1 then 1 else 0) + (if msk AND 2 = 2 then 1 else 0)
     + (if msk AND 4 = 4 then 1 else 0) + (if msk AND 8 = 8 then 1 else 0)"

definition soEntry :: "D3D11_SIGNATURE_PARAMETER_DESC \<Rightarrow> D3D11_SO_DECLARATION_ENTRY" where
  "soEntry paramDesc =
     \<lparr>so_Stream = Stream paramDesc,
      so_SemanticName = SemanticName paramDesc,
      so_SemanticIndex = SemanticIndex paramDesc,
      StartComponent = 0,
      ComponentCount = ucast (CalcComponentCount (ucast (Mask paramDesc))),
      OutputSlot = 0\<rparr>"

text \<open>
  The loop over the output parameters carries the declaration \<open>soDecl\<close> and the field
  \<open>streamOutVertexSize\<close>; \<^verbatim>\<open>sizeof(float)\<close> is 4 and the sum is kept in 32 bits.
\<close>

fun streamOutLoop ::
  "D3D11_SIGNATURE_PARAMETER_DESC list \<Rightarrow> D3D11_SO_DECLARATION_ENTRY list \<times> uint
     \<Rightarrow> D3D11_SO_DECLARATION_ENTRY list \<times> uint" where
  "streamOutLoop [] acc = acc"
| "streamOutLoop (paramDesc # rest) (soDecl, sz) =
     streamOutLoop rest
       (soDecl @ [soEntry paramDesc],
        sz + ucast (ComponentCount (soEntry paramDesc)) * 4)"

definition CreateShaderWithStreamOut :: "Direct3D \<Rightarrow> ShaderBlob \<Rightarrow> SimpleShader \<Rightarrow> (bool \<times> SimpleShader) option" where
  "CreateShaderWithStreamOut d blob s0 =
     (let s = CleanUp s0 in
      case D3DReflect blob of
        None \<Rightarrow> None
      | Some rf \<Rightarrow>
          (case streamOutLoop (OutputParameters rf) ([], 0) of
             (soDecl, sz) \<Rightarrow>
               (let s1 = s\<lparr>streamOutVertexSize := sz,
                            device := device s @
                              [CreateGeometryShaderWithStreamOutput soDecl
                                 (allowStreamOutRasterization s)]\<rparr>
                in if CreateShader_ok d Geometry blob then Some (True, s1\<lparr>shader := True\<rparr>)
                   else Some (False, s1))))"

definition GS_CreateShader :: "Direct3D \<Rightarrow> ShaderBlob \<Rightarrow> SimpleShader \<Rightarrow> (bool \<times> SimpleShader) option" where
  "GS_CreateShader d blob s0 =
     (let s = CleanUp s0 in
      if useStreamOut s then CreateShaderWithStreamOut d blob s
      else if CreateShader_ok d Geometry blob then Some (True, s\<lparr>shader := True\<rparr>)
      else Some (False, s))"

subsection \<open>Compute shader\<close>

definition isUAV :: "D3D_SHADER_INPUT_TYPE \<Rightarrow> bool" where
  "isUAV t \<longleftrightarrow> t \<in> {D3D_SIT_UAV_APPEND_STRUCTURED, D3D_SIT_UAV_CONSUME_STRUCTURED,
     D3D_SIT_UAV_RWBYTEADDRESS, D3D_SIT_UAV_RWSTRUCTURED,
     D3D_SIT_UAV_RWSTRUCTURED_WITH_COUNTER, D3D_SIT_UAV_RWTYPED}"

fun uavLoop :: "D3D11_SHADER_INPUT_BIND_DESC list \<Rightarrow> (string \<rightharpoonup> nat) \<Rightarrow> (string \<rightharpoonup> nat)" where
  "uavLoop [] tbl = tbl"
| "uavLoop (resourceDesc # rest) tbl =
     uavLoop rest
       (if isUAV (res_Type resourceDesc)
        then table_insert tbl (res_Name resourceDesc) (BindPoint resourceDesc)
        else tbl)"

definition CS_CreateShader :: "Direct3D \<Rightarrow> ShaderBlob \<Rightarrow> SimpleShader \<Rightarrow> (bool \<times> SimpleShader) option" where
  "CS_CreateShader d blob s0 =
     (let s = CleanUp s0 in
      if \<not> CreateShader_ok d Compute blob then Some (False, s)
      else
        (case D3DReflect blob of
           None \<Rightarrow> None
         | Some rf \<Rightarrow>
             (case GetThreadGroupSize rf of
                (tot, x, y, z) \<Rightarrow>
                  Some (True,
                    s\<lparr>shader := True, threadsTotal := tot,
                      threadsX := x, threadsY := y, threadsZ := z,
                      uavTable := uavLoop (BoundResources rf) (uavTable s)\<rparr>))))"

text \<open>The virtual call \<^verbatim>\<open>CreateShader\<close>, resolved by the stage.\<close>

definition CreateShader :: "Direct3D \<Rightarrow> ShaderBlob \<Rightarrow> SimpleShader \<Rightarrow> (bool \<times> SimpleShader) option" where
  "CreateShader d blob s =
     (case kind s of
        Vertex \<Rightarrow> VS_CreateShader d blob s
      | Geometry \<Rightarrow> GS_CreateShader d blob s
      | Compute \<Rightarrow> CS_CreateShader d blob s
      | _ \<Rightarrow> Plain_CreateShader d blob s)"

subsection \<open>LoadShaderFile\<close>

text \<open>The loop over the bound resources; the \<open>switch\<close> files textures and samplers.\<close>

definition addResource :: "D3D11_SHADER_INPUT_BIND_DESC \<Rightarrow> SimpleShader \<Rightarrow> SimpleShader" where
  "addResource resourceDesc s =
     (if res_Type resourceDesc = D3D_SIT_STRUCTURED \<or> res_Type resourceDesc = D3D_SIT_TEXTURE then
        (let srv = \<lparr>srv_Index = length (shaderResourceViews s),
                     srv_BindIndex = BindPoint resourceDesc\<rparr>
         in s\<lparr>textureTable := table_insert (textureTable s) (res_Name resourceDesc) srv,
              shaderResourceViews := shaderResourceViews s @ [srv]\<rparr>)
      else if res_Type resourceDesc = D3D_SIT_SAMPLER then
        (let samp = \<lparr>samp_Index = length (samplerStates s),
                      samp_BindIndex = BindPoint resourceDesc\<rparr>
         in s\<lparr>samplerTable := table_insert (samplerTable s) (res_Name resourceDesc) samp,
              samplerStates := samplerStates s @ [samp]\<rparr>)
      else s)"

fun resourcesLoop :: "D3D11_SHADER_INPUT_BIND_DESC list \<Rightarrow> SimpleShader \<Rightarrow> SimpleShader" where
  "resourcesLoop [] s = s"
| "resourcesLoop (resourceDesc # rest) s = resourcesLoop rest (addResource resourceDesc s)"

text \<open>
  The loop over the variables of buffer \<open>b\<close>: each variable goes into the table and onto
  the buffer's own list.
\<close>

definition varStruct :: "nat \<Rightarrow> D3D11_SHADER_VARIABLE_DESC \<Rightarrow> SimpleShaderVariable" where
  "varStruct b varDesc =
     \<lparr>ByteOffset = StartOffset varDesc, Size = var_Size varDesc, ConstantBufferIndex = b\<rparr>"

fun variablesLoop :: "nat \<Rightarrow> D3D11_SHADER_VARIABLE_DESC list \<Rightarrow> SimpleShader \<Rightarrow> SimpleShader" where
  "variablesLoop b [] s = s"
| "variablesLoop b (varDesc # rest) s =
     variablesLoop b rest
       (s\<lparr>varTable := table_insert (varTable s) (var_Name varDesc) (varStruct b varDesc),
          constantBuffers := (constantBuffers s)
            [b := (constantBuffers s ! b)
               \<lparr>Variables := Variables (constantBuffers s ! b) @ [varStruct b varDesc]\<rparr>]\<rparr>)"

text \<open>
  The set-up of buffer \<open>b\<close>. The source allocates the array of all buffers first and
  fills slot \<open>b\<close> in pass \<open>b\<close>; here the array grows by one in each pass, so that slot
  \<open>b\<close> is the last one when pass \<open>b\<close> runs. The staging array is allocated with the
  buffer's size and zeroed.
\<close>

definition addBuffer :: "Direct3D \<Rightarrow> ShaderReflection \<Rightarrow> nat \<Rightarrow> D3D11_SHADER_BUFFER_DESC \<Rightarrow> SimpleShader \<Rightarrow> SimpleShader" where
  "addBuffer d rf b bufferDesc s =
     s\<lparr>constantBuffers := constantBuffers s @
          [\<lparr>Name = buf_Name bufferDesc,
            cb_Size = buf_Size bufferDesc,
            BindIndex = BindPoint (GetResourceBindingDescByName rf (buf_Name bufferDesc)),
            cb_Type = buf_Type bufferDesc,
            ConstantBuffer =
              (if CreateBuffer_ok d (buf_Size bufferDesc) then Some (buf_Size bufferDesc) else None),
            LocalDataBuffer = replicate (buf_Size bufferDesc) 0,
            Variables = []\<rparr>],
       cbTable := table_insert (cbTable s) (buf_Name bufferDesc) b,
       device := device s @ [CreateBuffer (buf_Size bufferDesc)]\<rparr>"

fun buffersLoop :: "Direct3D \<Rightarrow> ShaderReflection \<Rightarrow> nat \<Rightarrow> D3D11_SHADER_BUFFER_DESC list \<Rightarrow> SimpleShader \<Rightarrow> SimpleShader" where
  "buffersLoop d rf b [] s = s"
| "buffersLoop d rf b (bufferDesc # rest) s =
     buffersLoop d rf (Suc b) rest
       (variablesLoop b (buf_Variables bufferDesc) (addBuffer d rf b bufferDesc s))"

definition LoadShaderFile :: "Direct3D \<Rightarrow> string \<Rightarrow> SimpleShader \<Rightarrow> (bool \<times> SimpleShader) option" where
  "LoadShaderFile d shaderFile s =
     (case D3DReadFileToBlob d shaderFile of
        None \<Rightarrow> Some (False, err (Error_LoadingFile shaderFile) s)
      | Some blob \<Rightarrow>
          (case CreateShader d blob s of
             None \<Rightarrow> None
           | Some (ok, s1) \<Rightarrow>
               if \<not> ok then Some (False, err (Error_CreatingShader shaderFile) (s1\<lparr>shaderValid := False\<rparr>))
               else
                 (case D3DReflect blob of
                    None \<Rightarrow> None
                  | Some rf \<Rightarrow>
                      Some (True,
                        buffersLoop d rf 0 (ConstantBuffers rf)
                          (resourcesLoop (BoundResources rf)
                             (s1\<lparr>shaderValid := True, constantBuffers := []\<rparr>))))))"

subsection \<open>Constructors\<close>

text \<open>
  The base constructor. The static flags \<open>ReportErrors\<close> and \<open>ReportWarnings\<close> are given
  their current values; the fields of the derived classes get the values their own
  constructors assign.
\<close>

definition ISimpleShader :: "stage \<Rightarrow> bool \<Rightarrow> bool \<Rightarrow> SimpleShader" where
  "ISimpleShader k re rw =
     \<lparr>kind = k, ReportErrors = re, ReportWarnings = rw, console = [], deviceContext = [],
      device = [], shaderValid = False, shader = False, constantBuffers = [],
      shaderResourceViews = [], samplerStates = [], varTable = Map.empty,
      cbTable = Map.empty, samplerTable = Map.empty, textureTable = Map.empty,
      inputLayout = None, perInstanceCompatible = False, useStreamOut = False,
      allowStreamOutRasterization = False, streamOutVertexSize = 0, threadsTotal = 0,
      threadsX = 0, threadsY = 0, threadsZ = 0, uavTable = Map.empty\<rparr>"

datatype construction =
  New_SimpleVertexShader string
| New_SimpleVertexShader_layout string "ID3D11InputLayout option" bool
| New_SimplePixelShader string
| New_SimpleDomainShader string
| New_SimpleHullShader string
| New_SimpleGeometryShader string bool bool
| New_SimpleComputeShader string

fun shaderFile_of :: "construction \<Rightarrow> string" where
  "shaderFile_of (New_SimpleVertexShader f) = f"
| "shaderFile_of (New_SimpleVertexShader_layout f l p) = f"
| "shaderFile_of (New_SimplePixelShader f) = f"
| "shaderFile_of (New_SimpleDomainShader f) = f"
| "shaderFile_of (New_SimpleHullShader f) = f"
| "shaderFile_of (New_SimpleGeometryShader f u a) = f"
| "shaderFile_of (New_SimpleComputeShader f) = f"

text \<open>The object as the constructor body finds it before it calls \<open>LoadShaderFile\<close>.\<close>

fun fresh :: "bool \<Rightarrow> bool \<Rightarrow> construction \<Rightarrow> SimpleShader" where
  "fresh re rw (New_SimpleVertexShader f) = (ISimpleShader Vertex re rw)\<lparr>perInstanceCompatible := False\<rparr>"
| "fresh re rw (New_SimpleVertexShader_layout f l p) =
     (ISimpleShader Vertex re rw)\<lparr>inputLayout := l, perInstanceCompatible := p\<rparr>"
| "fresh re rw (New_SimplePixelShader f) = ISimpleShader Pixel re rw"
| "fresh re rw (New_SimpleDomainShader f) = ISimpleShader Domain re rw"
| "fresh re rw (New_SimpleHullShader f) = ISimpleShader Hull re rw"
| "fresh re rw (New_SimpleGeometryShader f u a) =
     (ISimpleShader Geometry re rw)
       \<lparr>streamOutVertexSize := 0, useStreamOut := u, allowStreamOutRasterization := a\<rparr>"
| "fresh re rw (New_SimpleComputeShader f) =
     (ISimpleShader Compute re rw)\<lparr>threadsTotal := 0, threadsX := 0, threadsY := 0, threadsZ := 0\<rparr>"

text \<open>
  A constructor call: the object exists whatever \<open>LoadShaderFile\<close> returns, and does not
  exist when the load dereferences a null reflection.
\<close>

definition construct :: "Direct3D \<Rightarrow> bool \<Rightarrow> bool \<Rightarrow> construction \<Rightarrow> SimpleShader option" where
  "construct d re rw c = map_option snd (LoadShaderFile d (shaderFile_of c) (fresh re rw c))"

section \<open>Operations on a program\<close>

subsection \<open>Activation and upload\<close>

text \<open>
  \<^verbatim>\<open>SetShaderAndCBs\<close> of the six classes: the vertex shader sets its input layout first;
  each class sets its shader and then binds, in array order, every buffer whose type is
  \<open>D3D11_CT_CBUFFER\<close>, on its own stage.
\<close>

definition SetShaderAndCBs :: "SimpleShader \<Rightarrow> SimpleShader" where
  "SetShaderAndCBs s =
     (if \<not> shaderValid s then s
      else s\<lparr>deviceContext := deviceContext s
             @ (if kind s = Vertex then [IASetInputLayout (inputLayout s)] else [])
             @ [SetShader_call (kind s)]
             @ map (\<lambda>cb. SetConstantBuffers (kind s) (BindIndex cb) (ConstantBuffer cb))
                 (filter (\<lambda>cb. cb_Type cb = D3D11_CT_CBUFFER) (constantBuffers s))\<rparr>)"

definition SetShader :: "SimpleShader \<Rightarrow> SimpleShader" where
  "SetShader s = (if \<not> shaderValid s then s else SetShaderAndCBs s)"

definition CopyAllBufferData :: "SimpleShader \<Rightarrow> SimpleShader" where
  "CopyAllBufferData s =
     (if \<not> shaderValid s then s
      else s\<lparr>deviceContext := deviceContext s
             @ map (\<lambda>cb. UpdateSubresource (ConstantBuffer cb) (LocalDataBuffer cb))
                 (constantBuffers s)\<rparr>)"

definition CopyBufferData_index :: "SimpleShader \<Rightarrow> nat \<Rightarrow> SimpleShader" where
  "CopyBufferData_index s index =
     (if \<not> shaderValid s then s
      else if index \<ge> constantBufferCount s then s
      else s\<lparr>deviceContext := deviceContext s
             @ [UpdateSubresource (ConstantBuffer (constantBuffers s ! index))
                  (LocalDataBuffer (constantBuffers s ! index))]\<rparr>)"

text \<open>
  By name the buffer comes from \<open>cbTable\<close>; a table entry that points outside the array
  is a dangling pointer in the source, and reading through it is the result \<open>None\<close>.
\<close>

definition CopyBufferData_name :: "SimpleShader \<Rightarrow> string \<Rightarrow> SimpleShader option" where
  "CopyBufferData_name s bufferName =
     (if \<not> shaderValid s then Some s
      else
        (case FindConstantBuffer s bufferName of
           None \<Rightarrow> Some s
         | Some i \<Rightarrow>
             if i < length (constantBuffers s)
             then Some (s\<lparr>deviceContext := deviceContext s
                    @ [UpdateSubresource (ConstantBuffer (constantBuffers s ! i))
                         (LocalDataBuffer (constantBuffers s ! i))]\<rparr>)
             else None))"

subsection \<open>Typed setters\<close>

text \<open>
  The typed setters pass the address of their argument and a fixed size to \<open>SetData\<close>.
  An \<^verbatim>\<open>int\<close> or \<^verbatim>\<open>float\<close> argument is given by its 32 bits, stored low byte first; an
  array or vector argument is given by the bytes found at its address.
\<close>

definition bytes_of :: "uint \<Rightarrow> byte list" where
  "bytes_of w = [ucast w, ucast (drop_bit 8 w), ucast (drop_bit 16 w), ucast (drop_bit 24 w)]"

definition SetInt :: "SimpleShader \<Rightarrow> string \<Rightarrow> uint \<Rightarrow> (bool \<times> SimpleShader) option" where
  "SetInt s name data = SetData s name (bytes_of data) 4"

definition SetFloat :: "SimpleShader \<Rightarrow> string \<Rightarrow> uint \<Rightarrow> (bool \<times> SimpleShader) option" where
  "SetFloat s name data = SetData s name (bytes_of data) 4"

definition SetFloat2 :: "SimpleShader \<Rightarrow> string \<Rightarrow> byte list \<Rightarrow> (bool \<times> SimpleShader) option" where
  "SetFloat2 s name data = SetData s name data (4 * 2)"

definition SetFloat3 :: "SimpleShader \<Rightarrow> string \<Rightarrow> byte list \<Rightarrow> (bool \<times> SimpleShader) option" where
  "SetFloat3 s name data = SetData s name data (4 * 3)"

definition SetFloat4 :: "SimpleShader \<Rightarrow> string \<Rightarrow> byte list \<Rightarrow> (bool \<times> SimpleShader) option" where
  "SetFloat4 s name data = SetData s name data (4 * 4)"

definition SetMatrix4x4 :: "SimpleShader \<Rightarrow> string \<Rightarrow> byte list \<Rightarrow> (bool \<times> SimpleShader) option" where
  "SetMatrix4x4 s name data = SetData s name data (4 * 16)"

subsection \<open>Probes and accessors\<close>

definition HasVariable :: "SimpleShader \<Rightarrow> string \<Rightarrow> bool" where
  "HasVariable s name \<longleftrightarrow> FindVariable s name (- 1) \<noteq> None"

definition GetVariableInfo :: "SimpleShader \<Rightarrow> string \<Rightarrow> SimpleShaderVariable option" where
  "GetVariableInfo s name = FindVariable s name (- 1)"

definition GetShaderResourceViewInfo_name :: "SimpleShader \<Rightarrow> string \<Rightarrow> SimpleSRV option" where
  "GetShaderResourceViewInfo_name s name = textureTable s name"

definition GetShaderResourceViewInfo_index :: "SimpleShader \<Rightarrow> nat \<Rightarrow> SimpleSRV option" where
  "GetShaderResourceViewInfo_index s index =
     (if index \<ge> length (shaderResourceViews s) then None
      else Some (shaderResourceViews s ! index))"

definition GetSamplerInfo_name :: "SimpleShader \<Rightarrow> string \<Rightarrow> SimpleSampler option" where
  "GetSamplerInfo_name s name = samplerTable s name"

definition GetSamplerInfo_index :: "SimpleShader \<Rightarrow> nat \<Rightarrow> SimpleSampler option" where
  "GetSamplerInfo_index s index =
     (if index \<ge> length (samplerStates s) then None else Some (samplerStates s ! index))"

definition HasShaderResourceView :: "SimpleShader \<Rightarrow> string \<Rightarrow> bool" where
  "HasShaderResourceView s name \<longleftrightarrow> GetShaderResourceViewInfo_name s name \<noteq> None"

definition HasSamplerState :: "SimpleShader \<Rightarrow> string \<Rightarrow> bool" where
  "HasSamplerState s name \<longleftrightarrow> GetSamplerInfo_name s name \<noteq> None"

definition GetBufferCount :: "SimpleShader \<Rightarrow> nat" where
  "GetBufferCount s = constantBufferCount s"

text \<open>\<open>GetBufferSize\<close> returns \<open>-1\<close> as an \<^verbatim>\<open>unsigned int\<close> for an index out of range.\<close>

definition GetBufferSize :: "SimpleShader \<Rightarrow> nat \<Rightarrow> nat" where
  "GetBufferSize s index =
     (if index \<ge> constantBufferCount s then 2 ^ 32 - 1 else cb_Size (constantBuffers s ! index))"

definition GetBufferInfo_name :: "SimpleShader \<Rightarrow> string \<Rightarrow> SimpleConstantBuffer option" where
  "GetBufferInfo_name s name = map_option (\<lambda>i. constantBuffers s ! i) (FindConstantBuffer s name)"

definition GetBufferInfo_index :: "SimpleShader \<Rightarrow> nat \<Rightarrow> SimpleConstantBuffer option" where
  "GetBufferInfo_index s index =
     (if index \<ge> constantBufferCount s then None else Some (constantBuffers s ! index))"

subsection \<open>Resources and samplers\<close>

text \<open>
  \<^verbatim>\<open>SetShaderResourceView\<close> and \<^verbatim>\<open>SetSamplerState\<close> are written out once per class in
  the source and differ only in the stage of the context call.
\<close>

definition SetShaderResourceView :: "SimpleShader \<Rightarrow> string \<Rightarrow> nat \<Rightarrow> bool \<times> SimpleShader" where
  "SetShaderResourceView s name srv =
     (case GetShaderResourceViewInfo_name s name of
        None \<Rightarrow> (False, warn (Warning_SRVNotFound (kind s) name) s)
      | Some srvInfo \<Rightarrow>
          (True, s\<lparr>deviceContext := deviceContext s
                   @ [SetShaderResources (kind s) (srv_BindIndex srvInfo) srv]\<rparr>))"

definition SetSamplerState :: "SimpleShader \<Rightarrow> string \<Rightarrow> nat \<Rightarrow> bool \<times> SimpleShader" where
  "SetSamplerState s name samplerState =
     (case GetSamplerInfo_name s name of
        None \<Rightarrow> (False, warn (Warning_SamplerNotFound (kind s) name) s)
      | Some sampInfo \<Rightarrow>
          (True, s\<lparr>deviceContext := deviceContext s
                   @ [SetSamplers (kind s) (samp_BindIndex sampInfo) samplerState]\<rparr>))"

subsection \<open>Geometry shader: stream-output helpers\<close>

text \<open>
  The byte width is the product of an \<^verbatim>\<open>unsigned int\<close> and an \<^verbatim>\<open>int\<close>, computed in
  32 bits without sign.
\<close>

definition CreateCompatibleStreamOutBuffer :: "Direct3D \<Rightarrow> SimpleShader \<Rightarrow> int \<Rightarrow> bool \<times> SimpleShader" where
  "CreateCompatibleStreamOutBuffer d s vertexCount =
     (if \<not> useStreamOut s \<or> \<not> shaderValid s \<or> streamOutVertexSize s = 0
      then (False, err Error_StreamOut s)
      else
        (let ByteWidth = streamOutVertexSize s * word_of_int vertexCount
         in (CreateBuffer_ok d (unat ByteWidth),
             s\<lparr>device := device s @ [CreateBuffer (unat ByteWidth)]\<rparr>)))"

definition UnbindStreamOutStage :: "SimpleShader \<Rightarrow> SimpleShader" where
  "UnbindStreamOutStage s = s\<lparr>deviceContext := deviceContext s @ [SOSetTargets 4]\<rparr>"

subsection \<open>Compute shader: unordered access views\<close>

text \<open>
  \<open>GetUnorderedAccessViewIndex\<close> returns the bind point as an \<^verbatim>\<open>int\<close>, or \<open>-1\<close>;
  \<open>SetUnorderedAccessView\<close> reads it back into an \<^verbatim>\<open>unsigned int\<close> and compares with \<open>-1\<close>.
\<close>

definition GetUnorderedAccessViewIndex :: "SimpleShader \<Rightarrow> string \<Rightarrow> int" where
  "GetUnorderedAccessViewIndex s name =
     (case uavTable s name of None \<Rightarrow> - 1 | Some i \<Rightarrow> sint (word_of_nat i :: uint))"

definition HasUnorderedAccessView :: "SimpleShader \<Rightarrow> string \<Rightarrow> bool" where
  "HasUnorderedAccessView s name \<longleftrightarrow> GetUnorderedAccessViewIndex s name \<noteq> - 1"

definition SetUnorderedAccessView :: "SimpleShader \<Rightarrow> string \<Rightarrow> nat \<Rightarrow> uint \<Rightarrow> bool \<times> SimpleShader" where
  "SetUnorderedAccessView s name uav appendConsumeOffset =
     (let bindIndex = (word_of_int (GetUnorderedAccessViewIndex s name) :: uint)
      in if bindIndex = - 1 then (False, warn (Warning_UAVNotFound name) s)
         else (True, s\<lparr>deviceContext := deviceContext s
                       @ [CSSetUnorderedAccessViews (unat bindIndex) uav appendConsumeOffset]\<rparr>))"

subsection \<open>Compute shader: dispatch\<close>

text \<open>
  \<open>DispatchByThreads\<close> computes each group count as
  \<^verbatim>\<open>max((unsigned int)ceil((float)threads / this->threads), 1)\<close>. The arithmetic is in
  IEEE 754 single precision: a float has 24 significant bits, and conversion and division
  round to the nearest float, ties to the one with an even significand. The values that
  occur are zero or lie between \<open>2 ^ 32\<close> and its reciprocal, so no exponent leaves the
  normal range; a positive float is given here by the number it stands for.
\<close>

fun bit_length :: "nat \<Rightarrow> nat" where
  "bit_length n = (if n = 0 then 0 else Suc (bit_length (n div 2)))"

declare bit_length.simps [simp del]

text \<open>The integer nearest to \<open>n / d\<close>, the even one of two equally near.\<close>

definition nearest_even :: "nat \<Rightarrow> nat \<Rightarrow> nat" where
  "nearest_even n d =
     (let q = n div d; r = n mod d
      in if 2 * r > d \<or> (2 * r = d \<and> odd q) then q + 1 else q)"

text \<open>\<^verbatim>\<open>(float)n\<close> for an \<^verbatim>\<open>unsigned int\<close>: \<open>n\<close> rounded to 24 significant bits.\<close>

definition float_of_uint :: "nat \<Rightarrow> nat" where
  "float_of_uint n = (let sh = bit_length n - 24 in nearest_even n (2 ^ sh) * 2 ^ sh)"

text \<open>
  The float quotient \<open>a / b\<close> of two floats with whole values, \<open>b\<close> positive, as a fraction
  (numerator, denominator): with \<open>2 ^ e \<le> a / b < 2 ^ (e + 1)\<close> the quotient is rounded
  to a multiple of \<open>2 ^ (e - 23)\<close>.
\<close>

definition float_div :: "nat \<Rightarrow> nat \<Rightarrow> nat \<times> nat" where
  "float_div a b =
     (if a = 0 then (0, 1)
      else
        (let e = int (bit_length a) - int (bit_length b)
                 - (if a * 2 ^ bit_length b < b * 2 ^ bit_length a then 1 else 0);
             sh = 23 - e
         in if sh \<ge> 0 then (nearest_even (a * 2 ^ nat sh) b, 2 ^ nat sh)
            else (nearest_even a (b * 2 ^ nat (- sh)) * 2 ^ nat (- sh), 1)))"

text \<open>\<^verbatim>\<open>ceil\<close> of a float given as a fraction; the result is a whole number.\<close>

fun float_ceil :: "nat \<times> nat \<Rightarrow> nat" where
  "float_ceil (n, d) = (n + d - 1) div d"

text \<open>
  Converting a float to \<^verbatim>\<open>unsigned int\<close> is undefined in C++ when the value is an
  infinity (a positive number divided by zero), not a number (zero divided by zero), or
  too large. What the machine delivers then is the parameter \<open>conv\<close>.
\<close>

datatype unrepresentable = Infinity | NaN | TooLarge nat

definition groupCount :: "(unrepresentable \<Rightarrow> uint) \<Rightarrow> uint \<Rightarrow> uint \<Rightarrow> uint" where
  "groupCount conv desired perGroup =
     (let c = (if perGroup = 0 then (if desired = 0 then conv NaN else conv Infinity)
               else
                 (let v = float_ceil (float_div (float_of_uint (unat desired))
                                                 (float_of_uint (unat perGroup)))
                  in if v < 2 ^ 32 then word_of_nat v else conv (TooLarge v)))
      in if c > 1 then c else 1)"

definition DispatchByGroups :: "SimpleShader \<Rightarrow> uint \<Rightarrow> uint \<Rightarrow> uint \<Rightarrow> SimpleShader" where
  "DispatchByGroups s groupsX groupsY groupsZ =
     s\<lparr>deviceContext := deviceContext s @ [Dispatch groupsX groupsY groupsZ]\<rparr>"

definition DispatchByThreads :: "(unrepresentable \<Rightarrow> uint) \<Rightarrow> SimpleShader \<Rightarrow> uint \<Rightarrow> uint \<Rightarrow> uint \<Rightarrow> SimpleShader" where
  "DispatchByThreads conv s tX tY tZ =
     s\<lparr>deviceContext := deviceContext s
        @ [Dispatch (groupCount conv tX (threadsX s))
                    (groupCount conv tY (threadsY s))
                    (groupCount conv tZ (threadsZ s))]\<rparr>"

section \<open>The public interface as one step function\<close>

datatype operation =
  Op_SetShader
| Op_CopyAllBufferData
| Op_CopyBufferData_index nat
| Op_CopyBufferData_name string
| Op_SetData string "byte list" nat
| Op_SetInt string uint
| Op_SetFloat string uint
| Op_SetFloat2 string "byte list"
| Op_SetFloat3 string "byte list"
| Op_SetFloat4 string "byte list"
| Op_SetMatrix4x4 string "byte list"
| Op_HasVariable string
| Op_HasShaderResourceView string
| Op_HasSamplerState string
| Op_GetVariableInfo string
| Op_GetShaderResourceViewInfo_name string
| Op_GetShaderResourceViewInfo_index nat
| Op_GetSamplerInfo_name string
| Op_GetSamplerInfo_index nat
| Op_GetBufferCount
| Op_GetBufferSize nat
| Op_GetBufferInfo_name string
| Op_GetBufferInfo_index nat
| Op_SetShaderResourceView string nat
| Op_SetSamplerState string nat
| Op_CreateCompatibleStreamOutBuffer int
| Op_UnbindStreamOutStage
| Op_DispatchByGroups uint uint uint
| Op_DispatchByThreads uint uint uint
| Op_HasUnorderedAccessView string
| Op_SetUnorderedAccessView string nat uint

datatype result =
  Void
| Flag bool
| Count nat
| VariableInfo "SimpleShaderVariable option"
| SRVInfo "SimpleSRV option"
| SamplerInfo "SimpleSampler option"
| BufferInfo "SimpleConstantBuffer option"

definition flagged :: "(bool \<times> SimpleShader) \<Rightarrow> result \<times> SimpleShader" where
  "flagged p = (Flag (fst p), snd p)"

fun exec :: "Direct3D \<Rightarrow> (unrepresentable \<Rightarrow> uint) \<Rightarrow> operation \<Rightarrow> SimpleShader \<Rightarrow> (result \<times> SimpleShader) option" where
  "exec d conv Op_SetShader s = Some (Void, SetShader s)"
| "exec d conv Op_CopyAllBufferData s = Some (Void, CopyAllBufferData s)"
| "exec d conv (Op_CopyBufferData_index i) s = Some (Void, CopyBufferData_index s i)"
| "exec d conv (Op_CopyBufferData_name n) s = map_option (Pair Void) (CopyBufferData_name s n)"
| "exec d conv (Op_SetData n bs sz) s = map_option flagged (SetData s n bs sz)"
| "exec d conv (Op_SetInt n w) s = map_option flagged (SetInt s n w)"
| "exec d conv (Op_SetFloat n w) s = map_option flagged (SetFloat s n w)"
| "exec d conv (Op_SetFloat2 n bs) s = map_option flagged (SetFloat2 s n bs)"
| "exec d conv (Op_SetFloat3 n bs) s = map_option flagged (SetFloat3 s n bs)"
| "exec d conv (Op_SetFloat4 n bs) s = map_option flagged (SetFloat4 s n bs)"
| "exec d conv (Op_SetMatrix4x4 n bs) s = map_option flagged (SetMatrix4x4 s n bs)"
| "exec d conv (Op_HasVariable n) s = Some (Flag (HasVariable s n), s)"
| "exec d conv (Op_HasShaderResourceView n) s = Some (Flag (HasShaderResourceView s n), s)"
| "exec d conv (Op_HasSamplerState n) s = Some (Flag (HasSamplerState s n), s)"
| "exec d conv (Op_GetVariableInfo n) s = Some (VariableInfo (GetVariableInfo s n), s)"
| "exec d conv (Op_GetShaderResourceViewInfo_name n) s = Some (SRVInfo (GetShaderResourceViewInfo_name s n), s)"
| "exec d conv (Op_GetShaderResourceViewInfo_index i) s = Some (SRVInfo (GetShaderResourceViewInfo_index s i), s)"
| "exec d conv (Op_GetSamplerInfo_name n) s = Some (SamplerInfo (GetSamplerInfo_name s n), s)"
| "exec d conv (Op_GetSamplerInfo_index i) s = Some (SamplerInfo (GetSamplerInfo_index s i), s)"
| "exec d conv Op_GetBufferCount s = Some (Count (GetBufferCount s), s)"
| "exec d conv (Op_GetBufferSize i) s = Some (Count (GetBufferSize s i), s)"
| "exec d conv (Op_GetBufferInfo_name n) s = Some (BufferInfo (GetBufferInfo_name s n), s)"
| "exec d conv (Op_GetBufferInfo_index i) s = Some (BufferInfo (GetBufferInfo_index s i), s)"
| "exec d conv (Op_SetShaderResourceView n h) s = Some (flagged (SetShaderResourceView s n h))"
| "exec d conv (Op_SetSamplerState n h) s = Some (flagged (SetSamplerState s n h))"
| "exec d conv (Op_CreateCompatibleStreamOutBuffer n) s = Some (flagged (CreateCompatibleStreamOutBuffer d s n))"
| "exec d conv Op_UnbindStreamOutStage s = Some (Void, UnbindStreamOutStage s)"
| "exec d conv (Op_DispatchByGroups x y z) s = Some (Void, DispatchByGroups s x y z)"
| "exec d conv (Op_DispatchByThreads x y z) s = Some (Void, DispatchByThreads conv s x y z)"
| "exec d conv (Op_HasUnorderedAccessView n) s = Some (Flag (HasUnorderedAccessView s n), s)"
| "exec d conv (Op_SetUnorderedAccessView n h off) s = Some (flagged (SetUnorderedAccessView s n h off))"

text \<open>A sequence of calls; it stops where a call has undefined behaviour.\<close>

fun run :: "Direct3D \<Rightarrow> (unrepresentable \<Rightarrow> uint) \<Rightarrow> operation list \<Rightarrow> SimpleShader \<Rightarrow> SimpleShader option" where
  "run d conv [] s = Some s"
| "run d conv (op # ops) s =
     (case exec d conv op s of None \<Rightarrow> None | Some (r, s') \<Rightarrow> run d conv ops s')"

section \<open>Vocabulary of the properties\<close>

text \<open>
  The variables of all constant buffers as the build inserts them into the variable
  table: name and descriptor, in insertion order, buffer \<open>b\<close> first.
\<close>

fun reflectedVariables :: "nat \<Rightarrow> D3D11_SHADER_BUFFER_DESC list \<Rightarrow> (string \<times> SimpleShaderVariable) list" where
  "reflectedVariables b [] = []"
| "reflectedVariables b (bufferDesc # rest) =
     map (\<lambda>varDesc. (var_Name varDesc, varStruct b varDesc)) (buf_Variables bufferDesc)
     @ reflectedVariables (Suc b) rest"

text \<open>A variable lies inside the staging array of the buffer it names.\<close>

definition in_bounds :: "SimpleShader \<Rightarrow> SimpleShaderVariable \<Rightarrow> bool" where
  "in_bounds s var \<longleftrightarrow>
     ConstantBufferIndex var < length (constantBuffers s) \<and>
     ByteOffset var + Size var \<le> length (LocalDataBuffer (constantBuffers s ! ConstantBufferIndex var))"

text \<open>
  A program is consistent when every staging array has the length of its buffer's size,
  every variable of the table lies inside its buffer, and every entry of the buffer table
  points into the buffer array.
\<close>

definition consistent :: "SimpleShader \<Rightarrow> bool" where
  "consistent s \<longleftrightarrow>
     (\<forall>cb \<in> set (constantBuffers s). length (LocalDataBuffer cb) = cb_Size cb) \<and>
     (\<forall>name var. varTable s name = Some var \<longrightarrow> in_bounds s var) \<and>
     (\<forall>name i. cbTable s name = Some i \<longrightarrow> i < length (constantBuffers s))"

text \<open>Reflection is consistent when every variable it reports ends inside its buffer.\<close>

definition reflection_consistent :: "ShaderReflection \<Rightarrow> bool" where
  "reflection_consistent rf \<longleftrightarrow>
     (\<forall>bd \<in> set (ConstantBuffers rf). \<forall>vd \<in> set (buf_Variables bd).
        StartOffset vd + var_Size vd \<le> buf_Size bd)"

text \<open>A program with no buffers, no resources and empty tables.\<close>

definition blank :: "SimpleShader \<Rightarrow> bool" where
  "blank s \<longleftrightarrow>
     constantBuffers s = [] \<and> varTable s = Map.empty \<and> cbTable s = Map.empty \<and>
     samplerTable s = Map.empty \<and> textureTable s = Map.empty \<and>
     shaderResourceViews s = [] \<and> samplerStates s = [] \<and> uavTable s = Map.empty"

text \<open>The size and the staging length of every constant buffer.\<close>

definition layout :: "SimpleShader \<Rightarrow> (nat \<times> nat) list" where
  "layout s = map (\<lambda>cb. (cb_Size cb, length (LocalDataBuffer cb))) (constantBuffers s)"

text \<open>
  A call supplies enough data when the array behind its pointer argument is at least as
  long as the number of bytes \<open>SetData\<close> is told to read.
\<close>

fun enough_data :: "operation \<Rightarrow> bool" where
  "enough_data (Op_SetData n bs sz) \<longleftrightarrow> sz \<le> length bs"
| "enough_data (Op_SetFloat2 n bs) \<longleftrightarrow> 8 \<le> length bs"
| "enough_data (Op_SetFloat3 n bs) \<longleftrightarrow> 12 \<le> length bs"
| "enough_data (Op_SetFloat4 n bs) \<longleftrightarrow> 16 \<le> length bs"
| "enough_data (Op_SetMatrix4x4 n bs) \<longleftrightarrow> 64 \<le> length bs"
| "enough_data _ \<longleftrightarrow> True"

text \<open>The number of bits set in a byte.\<close>

definition set_bits :: "byte \<Rightarrow> nat" where
  "set_bits m = length (filter (bit m) [0..<8])"

section \<open>A sample shader\<close>

text \<open>
  A compiled shader as reflection describes it: two constant buffers with three variables,
  a texture, a sampler and an unordered access view, two vertex inputs, one of them per
  instance, two outputs, and thread groups of 5 by 2 by 2.
\<close>

definition sample_reflection :: ShaderReflection where
  "sample_reflection =
     \<lparr>BoundResources =
        [\<lparr>res_Name = ''perMaterial'', res_Type = D3D_SIT_CBUFFER, BindPoint = 0\<rparr>,
         \<lparr>res_Name = ''perFrame'', res_Type = D3D_SIT_CBUFFER, BindPoint = 1\<rparr>,
         \<lparr>res_Name = ''Albedo'', res_Type = D3D_SIT_TEXTURE, BindPoint = 0\<rparr>,
         \<lparr>res_Name = ''BasicSampler'', res_Type = D3D_SIT_SAMPLER, BindPoint = 0\<rparr>,
         \<lparr>res_Name = ''Particles'', res_Type = D3D_SIT_UAV_RWSTRUCTURED, BindPoint = 2\<rparr>],
      ConstantBuffers =
        [\<lparr>buf_Name = ''perMaterial'', buf_Type = D3D11_CT_CBUFFER, buf_Size = 32,
          buf_Variables =
            [\<lparr>var_Name = ''Color'', StartOffset = 0, var_Size = 16\<rparr>,
             \<lparr>var_Name = ''Shininess'', StartOffset = 16, var_Size = 4\<rparr>]\<rparr>,
         \<lparr>buf_Name = ''perFrame'', buf_Type = D3D11_CT_CBUFFER, buf_Size = 16,
          buf_Variables =
            [\<lparr>var_Name = ''LightCount'', StartOffset = 0, var_Size = 4\<rparr>]\<rparr>],
      InputParameters =
        [\<lparr>SemanticName = ''POSITION'', SemanticIndex = 0, Mask = 7,
          ComponentType = D3D_REGISTER_COMPONENT_FLOAT32, Stream = 0\<rparr>,
         \<lparr>SemanticName = ''WORLD_PER_INSTANCE'', SemanticIndex = 0, Mask = 15,
          ComponentType = D3D_REGISTER_COMPONENT_FLOAT32, Stream = 0\<rparr>],
      OutputParameters =
        [\<lparr>SemanticName = ''SV_POSITION'', SemanticIndex = 0, Mask = 15,
          ComponentType = D3D_REGISTER_COMPONENT_FLOAT32, Stream = 0\<rparr>,
         \<lparr>SemanticName = ''COLOR'', SemanticIndex = 0, Mask = 7,
          ComponentType = D3D_REGISTER_COMPONENT_FLOAT32, Stream = 0\<rparr>],
      GetResourceBindingDescByName =
        (\<lambda>n. \<lparr>res_Name = n, res_Type = D3D_SIT_CBUFFER,
               BindPoint = (if n = ''perFrame'' then 1 else 0)\<rparr>),
      GetThreadGroupSize = (20, 5, 2, 2)\<rparr>"

definition sample_blob :: ShaderBlob where
  "sample_blob = \<lparr>D3DReflect = Some sample_reflection\<rparr>"

text \<open>
  A runtime that finds the sample at one path only, creates every shader object and
  buffer, and refuses every input layout.
\<close>

definition sample_runtime :: Direct3D where
  "sample_runtime =
     \<lparr>D3DReadFileToBlob = (\<lambda>f. if f = ''Shader.cso'' then Some sample_blob else None),
      CreateShader_ok = (\<lambda>k b. True),
      CreateInputLayout_ok = (\<lambda>es. False),
      CreateBuffer_ok = (\<lambda>w. True)\<rparr>"

text \<open>The sample built as a pixel, a vertex and a stream-output geometry program.\<close>

definition sample_pixel :: "SimpleShader option" where
  "sample_pixel = construct sample_runtime False False (New_SimplePixelShader ''Shader.cso'')"

definition sample_vertex :: "SimpleShader option" where
  "sample_vertex = construct sample_runtime False False (New_SimpleVertexShader ''Shader.cso'')"

definition sample_geometry :: "SimpleShader option" where
  "sample_geometry =
     construct sample_runtime False False (New_SimpleGeometryShader ''Shader.cso'' True False)"

section \<open>Calls on a program that failed to build\<close>

text \<open>
  The calls that reach the device context without looking at the program: the two
  dispatch calls and the stream-output unbinding.
\<close>

fun unguarded :: "operation \<Rightarrow> bool" where
  "unguarded (Op_DispatchByGroups x y z) = True"
| "unguarded (Op_DispatchByThreads x y z) = True"
| "unguarded Op_UnbindStreamOutStage = True"
| "unguarded _ = False"

text \<open>
  What a call returns when it finds nothing: nothing for a \<^verbatim>\<open>void\<close> method, false, a null
  pointer, a count of zero buffers, and \<open>-1\<close> as an \<^verbatim>\<open>unsigned int\<close> for a buffer size.
\<close>

fun not_found :: "operation \<Rightarrow> result" where
  "not_found Op_SetShader = Void"
| "not_found Op_CopyAllBufferData = Void"
| "not_found (Op_CopyBufferData_index i) = Void"
| "not_found (Op_CopyBufferData_name n) = Void"
| "not_found (Op_GetVariableInfo n) = VariableInfo None"
| "not_found (Op_GetShaderResourceViewInfo_name n) = SRVInfo None"
| "not_found (Op_GetShaderResourceViewInfo_index i) = SRVInfo None"
| "not_found (Op_GetSamplerInfo_name n) = SamplerInfo None"
| "not_found (Op_GetSamplerInfo_index i) = SamplerInfo None"
| "not_found Op_GetBufferCount = Count 0"
| "not_found (Op_GetBufferSize i) = Count (2 ^ 32 - 1)"
| "not_found (Op_GetBufferInfo_name n) = BufferInfo None"
| "not_found (Op_GetBufferInfo_index i) = BufferInfo None"
| "not_found Op_UnbindStreamOutStage = Void"
| "not_found (Op_DispatchByGroups x y z) = Void"
| "not_found (Op_DispatchByThreads x y z) = Void"
| "not_found _ = Flag False"

text \<open>A compute program whose file is missing, and a conversion that delivers zero.\<close>

definition failed_compute :: "SimpleShader option" where
  "failed_compute = construct sample_runtime False False (New_SimpleComputeShader ''Missing.cso'')"

definition sample_conversion :: "unrepresentable \<Rightarrow> uint" where
  "sample_conversion u = 0"

text \<open>
  A call is inert when it leaves the program as it was but for diagnostics printed, which
  appear only if error or warning reporting is switched on.
\<close>

definition inert :: "SimpleShader \<Rightarrow> SimpleShader \<Rightarrow> bool" where
  "inert s s' \<longleftrightarrow>
     s' = s\<lparr>console := console s'\<rparr> \<and> deviceContext s' = deviceContext s \<and> device s' = device s
     \<and> (\<not> ReportErrors s \<and> \<not> ReportWarnings s \<longrightarrow> s' = s)"

section \<open>The group count in exact arithmetic\<close>

text \<open>
  The number of groups of \<open>g\<close> threads that hold \<open>t\<close> threads, and at least one:
  \<open>max(ceil(t / g), 1)\<close> for a positive \<open>g\<close>.
\<close>

definition exact_groupCount :: "nat \<Rightarrow> nat \<Rightarrow> nat" where
  "exact_groupCount t g = max ((t + g - 1) div g) 1"

section \<open>The build\<close>

lemma table_insert_apply:
  "table_insert m k v k' = (case m k' of Some w \<Rightarrow> Some w | None \<Rightarrow> if k' = k then Some v else None)"
  by (auto simp: table_insert_def split: option.splits)

lemma variablesLoop_varTable:
  "varTable (variablesLoop b vds s) name =
     (case varTable s name of Some w \<Rightarrow> Some w
      | None \<Rightarrow> map_of (map (\<lambda>varDesc. (var_Name varDesc, varStruct b varDesc)) vds) name)"
  by (induction vds arbitrary: s) (auto simp: table_insert_apply split: option.splits)

lemma variablesLoop_length [simp]:
  "length (constantBuffers (variablesLoop b vds s)) = length (constantBuffers s)"
  by (induction vds arbitrary: s) auto

lemma variablesLoop_other [simp]:
  "cbTable (variablesLoop b vds s) = cbTable s"
  "device (variablesLoop b vds s) = device s"
  "deviceContext (variablesLoop b vds s) = deviceContext s"
  "console (variablesLoop b vds s) = console s"
  "shaderValid (variablesLoop b vds s) = shaderValid s"
  "kind (variablesLoop b vds s) = kind s"
  by (induction vds arbitrary: s) auto

lemma map_update_same: "(map f xs)[b := f (xs ! b)] = map f xs"
  by (metis list_update_id map_update)

lemma variablesLoop_buffers:
  "map (\<lambda>cb. (cb_Size cb, LocalDataBuffer cb)) (constantBuffers (variablesLoop b vds s))
   = map (\<lambda>cb. (cb_Size cb, LocalDataBuffer cb)) (constantBuffers s)"
  by (induction vds arbitrary: s) (auto simp: map_update map_update_same [of "\<lambda>cb. (cb_Size cb, LocalDataBuffer cb)", simplified])

lemma buffersLoop_varTable:
  "varTable (buffersLoop d rf b bds s) name =
     (case varTable s name of Some w \<Rightarrow> Some w
      | None \<Rightarrow> map_of (reflectedVariables b bds) name)"
  by (induction bds arbitrary: s b)
     (auto simp: variablesLoop_varTable addBuffer_def map_add_def split: option.splits)

lemma buffersLoop_length:
  "length (constantBuffers (buffersLoop d rf b bds s)) = length (constantBuffers s) + length bds"
  by (induction bds arbitrary: s b) (auto simp: addBuffer_def)

lemma buffersLoop_buffers:
  "map (\<lambda>cb. (cb_Size cb, LocalDataBuffer cb)) (constantBuffers (buffersLoop d rf b bds s))
   = map (\<lambda>cb. (cb_Size cb, LocalDataBuffer cb)) (constantBuffers s)
     @ map (\<lambda>bd. (buf_Size bd, replicate (buf_Size bd) 0)) bds"
  by (induction bds arbitrary: s b) (auto simp: variablesLoop_buffers addBuffer_def)

lemma reflectedVariables_set:
  "(n, v) \<in> set (reflectedVariables b bds) \<longleftrightarrow>
     (\<exists>i < length bds. \<exists>vd \<in> set (buf_Variables (bds ! i)). n = var_Name vd \<and> v = varStruct (b + i) vd)"
proof (induction bds arbitrary: b)
  case Nil
  then show ?case by simp
next
  case (Cons bd bds)
  show ?case
  proof
    assume "(n, v) \<in> set (reflectedVariables b (bd # bds))"
    then consider "\<exists>vd \<in> set (buf_Variables bd). n = var_Name vd \<and> v = varStruct b vd"
      | "(n, v) \<in> set (reflectedVariables (Suc b) bds)"
      by auto
    then show "\<exists>i < length (bd # bds). \<exists>vd \<in> set (buf_Variables ((bd # bds) ! i)).
                  n = var_Name vd \<and> v = varStruct (b + i) vd"
    proof cases
      case 1
      then show ?thesis by (intro exI [of _ 0]) simp
    next
      case 2
      then obtain i vd where "i < length bds" "vd \<in> set (buf_Variables (bds ! i))"
        "n = var_Name vd" "v = varStruct (Suc b + i) vd"
        using Cons.IH by blast
      then show ?thesis by (intro exI [of _ "Suc i"]) auto
    qed
  next
    assume "\<exists>i < length (bd # bds). \<exists>vd \<in> set (buf_Variables ((bd # bds) ! i)).
                  n = var_Name vd \<and> v = varStruct (b + i) vd"
    then obtain i vd where *: "i < length (bd # bds)" "vd \<in> set (buf_Variables ((bd # bds) ! i))"
        "n = var_Name vd" "v = varStruct (b + i) vd"
      by blast
    show "(n, v) \<in> set (reflectedVariables b (bd # bds))"
    proof (cases i)
      case 0
      with * show ?thesis by auto
    next
      case (Suc j)
      with * have "(n, v) \<in> set (reflectedVariables (Suc b) bds)"
        using Cons.IH [of "Suc b"] by auto
      then show ?thesis by simp
    qed
  qed
qed

lemma reflectedVariables_names:
  "map fst (reflectedVariables b bds) = map var_Name (concat (map buf_Variables bds))"
  by (induction bds arbitrary: b) (simp_all add: comp_def)

lemma buffersLoop_cbTable:
  "cbTable (buffersLoop d rf b bds s) name = Some i \<Longrightarrow>
     cbTable s name = Some i \<or> (b \<le> i \<and> i < b + length bds)"
proof (induction bds arbitrary: s b)
  case Nil
  then show ?case by simp
next
  case (Cons bd bds)
  from Cons.IH [OF Cons.prems [simplified]]
  show ?case
    by (auto simp: addBuffer_def table_insert_apply split: option.splits if_splits)
qed

lemma buffersLoop_other [simp]:
  "device (buffersLoop d rf b bds s) = device s @ map (\<lambda>bd. CreateBuffer (buf_Size bd)) bds"
  "deviceContext (buffersLoop d rf b bds s) = deviceContext s"
  "console (buffersLoop d rf b bds s) = console s"
  "shaderValid (buffersLoop d rf b bds s) = shaderValid s"
  "kind (buffersLoop d rf b bds s) = kind s"
  by (induction bds arbitrary: s b) (auto simp: addBuffer_def)

lemma resourcesLoop_other [simp]:
  "constantBuffers (resourcesLoop rs s) = constantBuffers s"
  "varTable (resourcesLoop rs s) = varTable s"
  "cbTable (resourcesLoop rs s) = cbTable s"
  "device (resourcesLoop rs s) = device s"
  "deviceContext (resourcesLoop rs s) = deviceContext s"
  "console (resourcesLoop rs s) = console s"
  "shaderValid (resourcesLoop rs s) = shaderValid s"
  "kind (resourcesLoop rs s) = kind s"
  by (induction rs arbitrary: s) (auto simp: addResource_def Let_def)

lemmas create_defs =
  CreateShader_def VS_CreateShader_def Plain_CreateShader_def GS_CreateShader_def
  CreateShaderWithStreamOut_def CS_CreateShader_def CleanUp_def ISimpleShader_CleanUp_def

lemma CreateShader_tables:
  assumes "CreateShader d blob s0 = Some (ok, s1)"
  shows "constantBuffers s1 = []" and "varTable s1 = Map.empty" and "cbTable s1 = Map.empty"
    and "kind s1 = kind s0" and "deviceContext s1 = deviceContext s0" and "console s1 = console s0"
  using assms
  by (auto simp: create_defs Let_def split: stage.splits option.splits if_splits prod.splits)

lemma CreateShader_fails:
  assumes "CreateShader d blob s0 = Some (False, s1)" and "blank s0"
  shows "blank s1" and "shaderValid s1 = shaderValid s0"
  using assms
  by (auto simp: create_defs blank_def Let_def split: stage.splits option.splits if_splits prod.splits)

lemma fresh_props:
  "\<not> shaderValid (fresh re rw c)" "blank (fresh re rw c)" "deviceContext (fresh re rw c) = []"
  "device (fresh re rw c) = []"
  by (cases c; simp add: ISimpleShader_def blank_def)+

lemma err_props [simp]:
  "shaderValid (err e s) = shaderValid s" "blank (err e s) = blank s"
  "deviceContext (err e s) = deviceContext s" "device (err e s) = device s"
  "constantBuffers (err e s) = constantBuffers s" "varTable (err e s) = varTable s"
  "cbTable (err e s) = cbTable s"
  by (simp_all add: err_def blank_def)

lemma warn_props [simp]:
  "shaderValid (warn e s) = shaderValid s" "blank (warn e s) = blank s"
  "deviceContext (warn e s) = deviceContext s" "device (warn e s) = device s"
  "constantBuffers (warn e s) = constantBuffers s" "varTable (warn e s) = varTable s"
  "cbTable (warn e s) = cbTable s"
  by (simp_all add: warn_def blank_def)

lemma construct_valid:
  assumes "construct d re rw c = Some s" and "shaderValid s"
  shows "\<exists>blob rf s1. D3DReadFileToBlob d (shaderFile_of c) = Some blob \<and> D3DReflect blob = Some rf
           \<and> CreateShader d blob (fresh re rw c) = Some (True, s1)
           \<and> s = buffersLoop d rf 0 (ConstantBuffers rf)
                   (resourcesLoop (BoundResources rf) (s1\<lparr>shaderValid := True, constantBuffers := []\<rparr>))"
  using assms fresh_props(1) [of re rw c]
  by (auto simp: construct_def LoadShaderFile_def split: option.splits if_splits prod.splits)

lemma blank_shaderValid [simp]: "blank (s\<lparr>shaderValid := v\<rparr>) = blank s"
  by (simp add: blank_def)

lemma construct_invalid:
  assumes "construct d re rw c = Some s" and "\<not> shaderValid s"
  shows "blank s" and "deviceContext s = []"
proof -
  have b: "blank (fresh re rw c)" and c: "deviceContext (fresh re rw c) = []"
    by (rule fresh_props)+
  show "blank s" and "deviceContext s = []"
  proof (atomize (full), cases "D3DReadFileToBlob d (shaderFile_of c)")
    case None
    with assms have "s = err (Error_LoadingFile (shaderFile_of c)) (fresh re rw c)"
      by (simp add: construct_def LoadShaderFile_def)
    with b c show "blank s \<and> deviceContext s = []" by simp
  next
    case (Some blob)
    with assms obtain ok s1 where s1: "CreateShader d blob (fresh re rw c) = Some (ok, s1)"
      by (auto simp: construct_def LoadShaderFile_def split: option.splits)
    with assms Some have ok: "\<not> ok"
      and s: "s = err (Error_CreatingShader (shaderFile_of c)) (s1\<lparr>shaderValid := False\<rparr>)"
      by (auto simp: construct_def LoadShaderFile_def split: option.splits if_splits)
    from s1 ok have "blank s1"
      using CreateShader_fails(1) [of d blob "fresh re rw c" s1] b by simp
    moreover have "deviceContext s1 = []"
      using CreateShader_tables(5) [OF s1] c by simp
    ultimately show "blank s \<and> deviceContext s = []"
      by (simp add: s)
  qed
qed

lemma construct_varTable:
  assumes "construct d re rw c = Some s" and "shaderValid s"
    and "D3DReadFileToBlob d (shaderFile_of c) = Some blob" and "D3DReflect blob = Some rf"
  shows "varTable s name = map_of (reflectedVariables 0 (ConstantBuffers rf)) name"
proof -
  from construct_valid [OF assms(1,2)] assms(3,4)
  obtain s1 where s1: "CreateShader d blob (fresh re rw c) = Some (True, s1)"
    and s: "s = buffersLoop d rf 0 (ConstantBuffers rf)
                 (resourcesLoop (BoundResources rf) (s1\<lparr>shaderValid := True, constantBuffers := []\<rparr>))"
    by auto
  show ?thesis
    by (simp add: s buffersLoop_varTable CreateShader_tables(2) [OF s1])
qed

lemma construct_buffers:
  assumes "construct d re rw c = Some s" and "shaderValid s"
    and "D3DReadFileToBlob d (shaderFile_of c) = Some blob" and "D3DReflect blob = Some rf"
  shows "map (\<lambda>cb. (cb_Size cb, LocalDataBuffer cb)) (constantBuffers s)
         = map (\<lambda>bd. (buf_Size bd, replicate (buf_Size bd) 0)) (ConstantBuffers rf)"
proof -
  from construct_valid [OF assms(1,2)] assms(3,4)
  obtain s1 where s1: "CreateShader d blob (fresh re rw c) = Some (True, s1)"
    and s: "s = buffersLoop d rf 0 (ConstantBuffers rf)
                 (resourcesLoop (BoundResources rf) (s1\<lparr>shaderValid := True, constantBuffers := []\<rparr>))"
    by auto
  show ?thesis
    by (simp add: s buffersLoop_buffers)
qed

lemma construct_cbTable:
  assumes "construct d re rw c = Some s" and "shaderValid s"
    and "D3DReadFileToBlob d (shaderFile_of c) = Some blob" and "D3DReflect blob = Some rf"
    and "cbTable s name = Some i"
  shows "i < length (ConstantBuffers rf)"
proof -
  from construct_valid [OF assms(1,2)] assms(3,4)
  obtain s1 where s1: "CreateShader d blob (fresh re rw c) = Some (True, s1)"
    and s: "s = buffersLoop d rf 0 (ConstantBuffers rf)
                 (resourcesLoop (BoundResources rf) (s1\<lparr>shaderValid := True, constantBuffers := []\<rparr>))"
    by auto
  from assms(5) [unfolded s] show ?thesis
    by (auto dest!: buffersLoop_cbTable simp: CreateShader_tables(3) [OF s1])
qed

section \<open>SetData\<close>

lemma memcpy_nth:
  assumes "memcpy dst off src n = Some buf"
  shows "length buf = length dst"
    and "j < length dst \<Longrightarrow>
         buf ! j = (if off \<le> j \<and> j < off + n then src ! (j - off) else dst ! j)"
  using assms
  by (auto simp: memcpy_def nth_append split: if_splits)

lemma memcpy_defined:
  "off + n \<le> length dst \<Longrightarrow> n \<le> length src \<Longrightarrow> \<exists>buf. memcpy dst off src n = Some buf"
  by (simp add: memcpy_def)

text \<open>
  Claim C1. For a variable \<open>n\<close> of the table that lies inside its constant buffer, and a
  payload of at least \<open>sz\<close> bytes with \<open>sz\<close> at most the variable's size, \<open>SetData\<close>
  returns true; afterwards the staging array of the variable's buffer holds the first
  \<open>sz\<close> payload bytes from the variable's offset on, and every other staging byte of
  every constant buffer is what it was.
\<close>

theorem SetData_copies:
  assumes "varTable s n = Some var" and "in_bounds s var"
    and "sz \<le> Size var" and "sz \<le> length payload"
  shows "\<exists>s'. SetData s n payload sz = Some (True, s')
           \<and> length (staging s') = length (staging s)
           \<and> (\<forall>b < length (staging s).
                 length (staging s' ! b) = length (staging s ! b)
                 \<and> (\<forall>j < length (staging s ! b).
                       staging s' ! b ! j =
                         (if b = ConstantBufferIndex var \<and> ByteOffset var \<le> j
                             \<and> j < ByteOffset var + sz
                          then payload ! (j - ByteOffset var)
                          else staging s ! b ! j)))"
proof -
  let ?i = "ConstantBufferIndex var"
  let ?dst = "LocalDataBuffer (constantBuffers s ! ?i)"
  from assms(2) have i: "?i < length (constantBuffers s)"
    and fits: "ByteOffset var + Size var \<le> length ?dst"
    by (simp_all add: in_bounds_def)
  from fits assms(3,4) obtain buf where buf: "memcpy ?dst (ByteOffset var) payload sz = Some buf"
    using memcpy_defined [of "ByteOffset var" sz ?dst payload] by auto
  define s' where "s' = s\<lparr>constantBuffers := (constantBuffers s)
                 [?i := (constantBuffers s ! ?i)\<lparr>LocalDataBuffer := buf\<rparr>]\<rparr>"
  have run: "SetData s n payload sz = Some (True, s')"
    using assms(1,3) i buf by (simp add: SetData_def FindVariable_def s'_def)
  have st: "staging s' = (staging s)[?i := buf]"
    by (simp add: staging_def map_update s'_def)
  have dst: "staging s ! ?i = ?dst"
    using i by (simp add: staging_def)
  have "length (staging s' ! b) = length (staging s ! b)
          \<and> (\<forall>j < length (staging s ! b).
                staging s' ! b ! j =
                  (if b = ?i \<and> ByteOffset var \<le> j \<and> j < ByteOffset var + sz
                   then payload ! (j - ByteOffset var)
                   else staging s ! b ! j))"
    if b: "b < length (staging s)" for b
  proof (cases "b = ?i")
    case True
    have new: "staging s' ! b = buf"
      using True b by (simp add: st)
    show ?thesis
      unfolding new unfolding True dst
      using memcpy_nth [OF buf] by simp
  next
    case False
    then show ?thesis by (simp add: st)
  qed
  with run st show ?thesis by (intro exI [of _ s']) simp
qed

lemma sample_variables:
  "reflectedVariables 0 (ConstantBuffers sample_reflection) =
     [(''Color'', \<lparr>ByteOffset = 0, Size = 16, ConstantBufferIndex = 0\<rparr>),
      (''Shininess'', \<lparr>ByteOffset = 16, Size = 4, ConstantBufferIndex = 0\<rparr>),
      (''LightCount'', \<lparr>ByteOffset = 0, Size = 4, ConstantBufferIndex = 1\<rparr>)]"
  by (simp add: sample_reflection_def varStruct_def)

lemma sample_pixel_state:
  obtains s where "sample_pixel = Some s" and "shaderValid s"
    and "varTable s ''Shininess'' = Some \<lparr>ByteOffset = 16, Size = 4, ConstantBufferIndex = 0\<rparr>"
    and "varTable s ''Missing'' = None"
    and "staging s = [replicate 32 0, replicate 16 0]"
    and "length (constantBuffers s) = 2"
proof -
  obtain s where s: "construct sample_runtime False False (New_SimplePixelShader ''Shader.cso'') = Some s"
    and v: "shaderValid s"
    by (simp add: construct_def LoadShaderFile_def sample_runtime_def create_defs
          sample_blob_def ISimpleShader_def)
  have f: "D3DReadFileToBlob sample_runtime (shaderFile_of (New_SimplePixelShader ''Shader.cso''))
             = Some sample_blob"
    by (simp add: sample_runtime_def)
  have r: "D3DReflect sample_blob = Some sample_reflection"
    by (simp add: sample_blob_def)
  have tbl: "varTable s n = map_of (reflectedVariables 0 (ConstantBuffers sample_reflection)) n" for n
    by (rule construct_varTable [OF s v f r])
  have bufs: "map (\<lambda>cb. (cb_Size cb, LocalDataBuffer cb)) (constantBuffers s)
           = [(32, replicate 32 0), (16, replicate 16 0)]"
    using construct_buffers [OF s v f r] by (simp add: sample_reflection_def)
  have len: "length (constantBuffers s) = 2"
    using arg_cong [OF bufs, of length] by simp
  have st: "staging s = [replicate 32 0, replicate 16 0]"
    using arg_cong [OF bufs, of "map snd"] by (simp add: staging_def comp_def)
  show thesis
    by (rule that [of s]) (simp_all add: sample_pixel_def s v tbl sample_variables st len)
qed

theorem SetData_copies_witness:
  "\<exists>s s'. sample_pixel = Some s
      \<and> varTable s ''Shininess'' = Some \<lparr>ByteOffset = 16, Size = 4, ConstantBufferIndex = 0\<rparr>
      \<and> in_bounds s \<lparr>ByteOffset = 16, Size = 4, ConstantBufferIndex = 0\<rparr>
      \<and> SetData s ''Shininess'' [1, 2, 3, 4] 4 = Some (True, s')
      \<and> staging s' ! 0 ! 15 = 0 \<and> staging s' ! 0 ! 16 = 1 \<and> staging s' ! 0 ! 19 = 4
      \<and> staging s' ! 0 ! 20 = 0 \<and> staging s' ! 1 = staging s ! 1"
proof -
  let ?v = "\<lparr>ByteOffset = 16, Size = 4, ConstantBufferIndex = 0\<rparr>"
  obtain s where s: "sample_pixel = Some s" and "shaderValid s"
    and var: "varTable s ''Shininess'' = Some ?v"
    and "varTable s ''Missing'' = None"
    and st: "staging s = [replicate 32 0, replicate 16 0]"
    and len: "length (constantBuffers s) = 2"
    by (rule sample_pixel_state)
  have "LocalDataBuffer (constantBuffers s ! 0) = staging s ! 0"
    using len by (simp add: staging_def)
  then have bounds: "in_bounds s ?v"
    using len by (simp add: in_bounds_def st)
  have sz: "4 \<le> Size ?v" "4 \<le> length [1, 2, 3, 4 :: byte]"
    by simp_all
  from SetData_copies [OF var bounds sz]
  obtain s' where run: "SetData s ''Shininess'' [1, 2, 3, 4] 4 = Some (True, s')"
    and bytes: "\<forall>b < length (staging s).
                 length (staging s' ! b) = length (staging s ! b)
                 \<and> (\<forall>j < length (staging s ! b).
                       staging s' ! b ! j =
                         (if b = ConstantBufferIndex ?v \<and> ByteOffset ?v \<le> j
                             \<and> j < ByteOffset ?v + 4
                          then [1, 2, 3, 4] ! (j - ByteOffset ?v)
                          else staging s ! b ! j))"
    by (elim exE conjE) (rule that)
  have b0: "staging s' ! 0 ! 15 = 0" "staging s' ! 0 ! 16 = 1" "staging s' ! 0 ! 19 = 4"
    "staging s' ! 0 ! 20 = 0"
    using bytes [rule_format, of 0, THEN conjunct2, rule_format, of 15]
      bytes [rule_format, of 0, THEN conjunct2, rule_format, of 16]
      bytes [rule_format, of 0, THEN conjunct2, rule_format, of 19]
      bytes [rule_format, of 0, THEN conjunct2, rule_format, of 20]
    by (simp_all add: st)
  have b1: "staging s' ! 1 = staging s ! 1"
  proof (rule nth_equalityI)
    show l: "length (staging s' ! 1) = length (staging s ! 1)"
      using bytes [rule_format, of 1, THEN conjunct1] by (simp add: st)
    fix j assume "j < length (staging s' ! 1)"
    then have "j < length (staging s ! 1)"
      using l by simp
    then show "staging s' ! 1 ! j = staging s ! 1 ! j"
      using bytes [rule_format, of 1, THEN conjunct2, rule_format, of j] by (simp add: st)
  qed
  show ?thesis
    by (rule exI [of _ s], rule exI [of _ s'], intro conjI) (rule s var bounds run b0 b1)+
qed

text \<open>
  Claim C2. In every program state, \<open>SetData\<close> returns false and leaves the staging arrays
  of all constant buffers unchanged when the name is not a key of the variable table, or
  when the size is strictly greater than the size of the named variable.
\<close>

theorem SetData_rejects:
  assumes "varTable s name = None \<or> (\<exists>var. varTable s name = Some var \<and> Size var < sz)"
  shows "\<exists>s'. SetData s name data sz = Some (False, s') \<and> staging s' = staging s"
  using assms by (auto simp: SetData_def FindVariable_def staging_def warn_def)

theorem SetData_rejects_witness:
  "\<exists>s. sample_pixel = Some s
      \<and> varTable s ''Missing'' = None
      \<and> (\<exists>s'. SetData s ''Missing'' [1, 2, 3, 4] 4 = Some (False, s') \<and> staging s' = staging s)
      \<and> (\<exists>var. varTable s ''Shininess'' = Some var \<and> Size var < 8)
      \<and> (\<exists>s'. SetData s ''Shininess'' [1, 2, 3, 4, 5, 6, 7, 8] 8 = Some (False, s')
               \<and> staging s' = staging s)"
proof -
  obtain s where s: "sample_pixel = Some s" and "shaderValid s"
    and var: "varTable s ''Shininess'' = Some \<lparr>ByteOffset = 16, Size = 4, ConstantBufferIndex = 0\<rparr>"
    and none: "varTable s ''Missing'' = None"
    and "staging s = [replicate 32 0, replicate 16 0]"
    and "length (constantBuffers s) = 2"
    by (rule sample_pixel_state)
  from var have big: "\<exists>var. varTable s ''Shininess'' = Some var \<and> Size var < 8"
    by simp
  have 1: "\<exists>s'. SetData s ''Missing'' [1, 2, 3, 4] 4 = Some (False, s') \<and> staging s' = staging s"
    by (rule SetData_rejects [OF disjI1 [OF none]])
  have 2: "\<exists>s'. SetData s ''Shininess'' [1, 2, 3, 4, 5, 6, 7, 8] 8 = Some (False, s')
               \<and> staging s' = staging s"
    by (rule SetData_rejects [OF disjI2 [OF big]])
  show ?thesis
    by (rule exI [of _ s], intro conjI) (rule s none 1 big 2)+
qed

section \<open>Lookup of reflected variables\<close>

text \<open>
  Claim C7. After a successful build, looking up the name of any variable that reflection
  reported succeeds, and when the variable names are unique across all constant buffers
  the descriptor found has that variable's reflected size (and its offset and buffer).
\<close>

theorem lookup_reflected_variable:
  assumes "construct d re rw c = Some s" and "shaderValid s"
    and "D3DReadFileToBlob d (shaderFile_of c) = Some blob" and "D3DReflect blob = Some rf"
    and "b < length (ConstantBuffers rf)" and "vd \<in> set (buf_Variables (ConstantBuffers rf ! b))"
  shows "(\<exists>var. GetVariableInfo s (var_Name vd) = Some var) \<and> HasVariable s (var_Name vd)
         \<and> (distinct (map var_Name (concat (map buf_Variables (ConstantBuffers rf))))
              \<longrightarrow> (\<exists>var. GetVariableInfo s (var_Name vd) = Some var
                     \<and> Size var = var_Size vd \<and> ByteOffset var = StartOffset vd
                     \<and> ConstantBufferIndex var = b))"
proof -
  let ?vars = "reflectedVariables 0 (ConstantBuffers rf)"
  have tbl: "varTable s n = map_of ?vars n" for n
    by (rule construct_varTable [OF assms(1-4)])
  have get: "GetVariableInfo s n = map_of ?vars n" for n
    by (simp add: GetVariableInfo_def FindVariable_def tbl split: option.splits)
  have mem: "(var_Name vd, varStruct b vd) \<in> set ?vars"
    using assms(5,6) by (auto simp: reflectedVariables_set)
  then have "var_Name vd \<in> fst ` set ?vars"
    by force
  then obtain var where var: "map_of ?vars (var_Name vd) = Some var"
    by (metis map_of_eq_None_iff not_Some_eq)
  have found: "\<exists>var. GetVariableInfo s (var_Name vd) = Some var"
    using var by (simp add: get)
  have has: "HasVariable s (var_Name vd)"
    using found by (auto simp: HasVariable_def GetVariableInfo_def)
  have uniq: "\<exists>var. GetVariableInfo s (var_Name vd) = Some var
                     \<and> Size var = var_Size vd \<and> ByteOffset var = StartOffset vd
                     \<and> ConstantBufferIndex var = b"
    if "distinct (map var_Name (concat (map buf_Variables (ConstantBuffers rf))))"
  proof -
    from that have "distinct (map fst ?vars)"
      by (simp add: reflectedVariables_names)
    with mem have "map_of ?vars (var_Name vd) = Some (varStruct b vd)"
      by simp
    then show ?thesis
      by (simp add: get varStruct_def)
  qed
  from found has uniq show ?thesis by blast
qed

theorem lookup_reflected_variable_witness:
  "\<exists>s. sample_pixel = Some s \<and> shaderValid s
      \<and> D3DReadFileToBlob sample_runtime ''Shader.cso'' = Some sample_blob
      \<and> D3DReflect sample_blob = Some sample_reflection
      \<and> (1::nat) < length (ConstantBuffers sample_reflection)
      \<and> \<lparr>var_Name = ''LightCount'', StartOffset = 0, var_Size = 4\<rparr>
           \<in> set (buf_Variables (ConstantBuffers sample_reflection ! 1))
      \<and> distinct (map var_Name (concat (map buf_Variables (ConstantBuffers sample_reflection))))
      \<and> (\<exists>var. GetVariableInfo s ''LightCount'' = Some var \<and> Size var = 4
                \<and> ByteOffset var = 0 \<and> ConstantBufferIndex var = 1)"
proof -
  let ?vd = "\<lparr>var_Name = ''LightCount'', StartOffset = 0, var_Size = 4\<rparr>"
  obtain s where s: "sample_pixel = Some s" and v: "shaderValid s"
    and "varTable s ''Shininess'' = Some \<lparr>ByteOffset = 16, Size = 4, ConstantBufferIndex = 0\<rparr>"
    and "varTable s ''Missing'' = None"
    and "staging s = [replicate 32 0, replicate 16 0]"
    and "length (constantBuffers s) = 2"
    by (rule sample_pixel_state)
  have c: "construct sample_runtime False False (New_SimplePixelShader ''Shader.cso'') = Some s"
    using s by (simp add: sample_pixel_def)
  have f: "D3DReadFileToBlob sample_runtime ''Shader.cso'' = Some sample_blob"
    by (simp add: sample_runtime_def)
  have f': "D3DReadFileToBlob sample_runtime (shaderFile_of (New_SimplePixelShader ''Shader.cso''))
              = Some sample_blob"
    by (simp add: sample_runtime_def)
  have r: "D3DReflect sample_blob = Some sample_reflection"
    by (simp add: sample_blob_def)
  have b: "(1::nat) < length (ConstantBuffers sample_reflection)"
    by (simp add: sample_reflection_def)
  have m: "?vd \<in> set (buf_Variables (ConstantBuffers sample_reflection ! 1))"
    by (simp add: sample_reflection_def)
  have dist: "distinct (map var_Name (concat (map buf_Variables (ConstantBuffers sample_reflection))))"
    by (simp add: sample_reflection_def)
  have "\<exists>var. GetVariableInfo s (var_Name ?vd) = Some var
                     \<and> Size var = var_Size ?vd \<and> ByteOffset var = StartOffset ?vd
                     \<and> ConstantBufferIndex var = 1"
    using lookup_reflected_variable [OF c v f' r b m, THEN conjunct2, THEN conjunct2] dist
    by (rule mp)
  then have found: "\<exists>var. GetVariableInfo s ''LightCount'' = Some var \<and> Size var = 4
                \<and> ByteOffset var = 0 \<and> ConstantBufferIndex var = 1"
    by simp
  show ?thesis
    by (rule exI [of _ s], intro conjI) (rule s v f r b m dist found)+
qed

section \<open>What the public interface preserves\<close>

lemma memcpy_length: "memcpy dst off src n = Some buf \<Longrightarrow> length buf = length dst"
  by (rule memcpy_nth(1))

lemma SetData_frame:
  assumes "SetData s n bs sz = Some (r, s')"
  shows "layout s' = layout s" and "varTable s' = varTable s" and "cbTable s' = cbTable s"
    and "shaderValid s' = shaderValid s"
proof -
  show "layout s' = layout s"
    using assms
    by (auto simp: SetData_def layout_def warn_def map_update memcpy_length
          map_update_same [of "\<lambda>cb. (cb_Size cb, length (LocalDataBuffer cb))", simplified]
          split: option.splits if_splits)
  show "varTable s' = varTable s" "cbTable s' = cbTable s" "shaderValid s' = shaderValid s"
    using assms
    by (auto simp: SetData_def warn_def split: option.splits if_splits)
qed

lemmas setter_defs =
  SetInt_def SetFloat_def SetFloat2_def SetFloat3_def SetFloat4_def SetMatrix4x4_def

lemma exec_frame:
  assumes "exec d conv op s = Some (r, s')"
  shows "layout s' = layout s \<and> varTable s' = varTable s \<and> cbTable s' = cbTable s
         \<and> shaderValid s' = shaderValid s"
proof (cases op)
  case (Op_SetData n bs sz)
  with assms obtain p where "SetData s n bs sz = Some p" "s' = snd p"
    by (auto simp: flagged_def)
  then show ?thesis
    using SetData_frame [of s n bs sz "fst p" s'] by simp
next
  case (Op_SetInt n w)
  with assms obtain p where "SetData s n (bytes_of w) 4 = Some p" "s' = snd p"
    by (auto simp: flagged_def setter_defs)
  then show ?thesis
    using SetData_frame [of s n "bytes_of w" 4 "fst p" s'] by simp
next
  case (Op_SetFloat n w)
  with assms obtain p where "SetData s n (bytes_of w) 4 = Some p" "s' = snd p"
    by (auto simp: flagged_def setter_defs)
  then show ?thesis
    using SetData_frame [of s n "bytes_of w" 4 "fst p" s'] by simp
next
  case (Op_SetFloat2 n bs)
  with assms obtain p where "SetData s n bs (4 * 2) = Some p" "s' = snd p"
    by (auto simp: flagged_def setter_defs)
  then show ?thesis
    using SetData_frame [of s n bs "4 * 2" "fst p" s'] by simp
next
  case (Op_SetFloat3 n bs)
  with assms obtain p where "SetData s n bs (4 * 3) = Some p" "s' = snd p"
    by (auto simp: flagged_def setter_defs)
  then show ?thesis
    using SetData_frame [of s n bs "4 * 3" "fst p" s'] by simp
next
  case (Op_SetFloat4 n bs)
  with assms obtain p where "SetData s n bs (4 * 4) = Some p" "s' = snd p"
    by (auto simp: flagged_def setter_defs)
  then show ?thesis
    using SetData_frame [of s n bs "4 * 4" "fst p" s'] by simp
next
  case (Op_SetMatrix4x4 n bs)
  with assms obtain p where "SetData s n bs (4 * 16) = Some p" "s' = snd p"
    by (auto simp: flagged_def setter_defs)
  then show ?thesis
    using SetData_frame [of s n bs "4 * 16" "fst p" s'] by simp
qed (use assms in \<open>auto simp: layout_def flagged_def SetShader_def SetShaderAndCBs_def
      CopyAllBufferData_def CopyBufferData_index_def CopyBufferData_name_def
      SetShaderResourceView_def SetSamplerState_def CreateCompatibleStreamOutBuffer_def
      UnbindStreamOutStage_def DispatchByGroups_def DispatchByThreads_def
      SetUnorderedAccessView_def warn_def err_def Let_def
      split: option.splits if_splits\<close>)

lemma run_frame:
  "run d conv ops s = Some s' \<Longrightarrow>
     layout s' = layout s \<and> varTable s' = varTable s \<and> cbTable s' = cbTable s
     \<and> shaderValid s' = shaderValid s"
proof (induction ops arbitrary: s)
  case Nil
  then show ?case by simp
next
  case (Cons op ops)
  then obtain r s1 where 1: "exec d conv op s = Some (r, s1)" and 2: "run d conv ops s1 = Some s'"
    by (auto split: option.splits)
  from exec_frame [OF 1] Cons.IH [OF 2] show ?case by simp
qed

lemma layout_lengths:
  "(\<forall>cb \<in> set (constantBuffers s). length (LocalDataBuffer cb) = cb_Size cb)
   \<longleftrightarrow> (\<forall>p \<in> set (layout s). snd p = fst p)"
  by (auto simp: layout_def)

text \<open>
  Claim C8. After a successful build the constant buffers are those reflection reports,
  in order, each with a staging array of the reflected size that is all zero; and after
  any sequence of calls of the public interface every staging array still has the length
  of its buffer's size.
\<close>

theorem staging_length_invariant:
  assumes "construct d re rw c = Some s0" and "shaderValid s0"
    and "D3DReadFileToBlob d (shaderFile_of c) = Some blob" and "D3DReflect blob = Some rf"
  shows "map (\<lambda>cb. (cb_Size cb, LocalDataBuffer cb)) (constantBuffers s0)
           = map (\<lambda>bd. (buf_Size bd, replicate (buf_Size bd) 0)) (ConstantBuffers rf)
         \<and> (\<forall>d' conv ops s. run d' conv ops s0 = Some s \<longrightarrow>
              (\<forall>cb \<in> set (constantBuffers s). length (LocalDataBuffer cb) = cb_Size cb))"
proof -
  have built: "map (\<lambda>cb. (cb_Size cb, LocalDataBuffer cb)) (constantBuffers s0)
           = map (\<lambda>bd. (buf_Size bd, replicate (buf_Size bd) 0)) (ConstantBuffers rf)"
    by (rule construct_buffers [OF assms])
  have "layout s0 = map (\<lambda>bd. (buf_Size bd, buf_Size bd)) (ConstantBuffers rf)"
    using arg_cong [OF built, of "map (\<lambda>p. (fst p, length (snd p)))"]
    by (simp add: layout_def comp_def)
  then have init: "\<forall>p \<in> set (layout s0). snd p = fst p"
    by auto
  have "\<forall>cb \<in> set (constantBuffers s). length (LocalDataBuffer cb) = cb_Size cb"
    if "run d' conv ops s0 = Some s" for d' conv ops s
    using run_frame [OF that] init by (simp add: layout_lengths)
  with built show ?thesis by blast
qed

theorem staging_length_invariant_witness:
  "\<exists>s0. sample_pixel = Some s0 \<and> shaderValid s0
      \<and> D3DReadFileToBlob sample_runtime ''Shader.cso'' = Some sample_blob
      \<and> D3DReflect sample_blob = Some sample_reflection
      \<and> staging s0 = [replicate 32 0, replicate 16 0]
      \<and> (\<exists>s. run sample_runtime (\<lambda>u. 0)
                 [Op_SetData ''Shininess'' [1, 2, 3, 4] 4, Op_CopyAllBufferData] s0 = Some s
             \<and> (\<forall>cb \<in> set (constantBuffers s). length (LocalDataBuffer cb) = cb_Size cb))"
proof -
  obtain s0 where s: "sample_pixel = Some s0" and v: "shaderValid s0"
    and var: "varTable s0 ''Shininess'' = Some \<lparr>ByteOffset = 16, Size = 4, ConstantBufferIndex = 0\<rparr>"
    and "varTable s0 ''Missing'' = None"
    and st: "staging s0 = [replicate 32 0, replicate 16 0]"
    and len: "length (constantBuffers s0) = 2"
    by (rule sample_pixel_state)
  have c: "construct sample_runtime False False (New_SimplePixelShader ''Shader.cso'') = Some s0"
    using s by (simp add: sample_pixel_def)
  have f: "D3DReadFileToBlob sample_runtime ''Shader.cso'' = Some sample_blob"
    by (simp add: sample_runtime_def)
  have f': "D3DReadFileToBlob sample_runtime (shaderFile_of (New_SimplePixelShader ''Shader.cso''))
              = Some sample_blob"
    by (simp add: sample_runtime_def)
  have r: "D3DReflect sample_blob = Some sample_reflection"
    by (simp add: sample_blob_def)
  have "LocalDataBuffer (constantBuffers s0 ! 0) = staging s0 ! 0"
    using len by (simp add: staging_def)
  then have l0: "length (LocalDataBuffer (constantBuffers s0 ! 0)) = 32"
    by (simp add: st)
  obtain s where run: "run sample_runtime (\<lambda>u. 0)
                 [Op_SetData ''Shininess'' [1, 2, 3, 4] 4, Op_CopyAllBufferData] s0 = Some s"
    by (simp add: SetData_def FindVariable_def var len memcpy_def l0 flagged_def)
  have inv: "\<forall>cb \<in> set (constantBuffers s). length (LocalDataBuffer cb) = cb_Size cb"
    using staging_length_invariant [OF c v f' r, THEN conjunct2, rule_format, OF run] by blast
  have ex: "\<exists>s. run sample_runtime (\<lambda>u. 0)
                 [Op_SetData ''Shininess'' [1, 2, 3, 4] 4, Op_CopyAllBufferData] s0 = Some s
             \<and> (\<forall>cb \<in> set (constantBuffers s). length (LocalDataBuffer cb) = cb_Size cb)"
    by (rule exI [of _ s], rule conjI) (rule run inv)+
  show ?thesis
    by (rule exI [of _ s0], intro conjI) (rule s v f r st ex)+
qed

lemma consistent_layout:
  "consistent s \<longleftrightarrow>
     (\<forall>p \<in> set (layout s). snd p = fst p) \<and>
     (\<forall>name var. varTable s name = Some var \<longrightarrow>
        ConstantBufferIndex var < length (layout s) \<and>
        ByteOffset var + Size var \<le> snd (layout s ! ConstantBufferIndex var)) \<and>
     (\<forall>name i. cbTable s name = Some i \<longrightarrow> i < length (layout s))"
proof -
  have 1: "(\<forall>cb \<in> set (constantBuffers s). length (LocalDataBuffer cb) = cb_Size cb)
           \<longleftrightarrow> (\<forall>p \<in> set (layout s). snd p = fst p)"
    by (rule layout_lengths)
  have 2: "in_bounds s var \<longleftrightarrow>
        ConstantBufferIndex var < length (layout s) \<and>
        ByteOffset var + Size var \<le> snd (layout s ! ConstantBufferIndex var)" for var
    by (auto simp: in_bounds_def layout_def)
  have 3: "length (constantBuffers s) = length (layout s)"
    by (simp add: layout_def)
  show ?thesis
    unfolding consistent_def 1 2 3 ..
qed

lemma exec_consistent:
  assumes "exec d conv op s = Some (r, s')" and "consistent s"
  shows "consistent s'"
proof -
  from exec_frame [OF assms(1)]
  have "layout s' = layout s" "varTable s' = varTable s" "cbTable s' = cbTable s"
    by simp_all
  then show ?thesis
    using assms(2) unfolding consistent_layout by (simp only:)
qed

lemma SetData_defined:
  assumes "consistent s" and "sz \<le> length bs"
  shows "\<exists>p. SetData s n bs sz = Some p"
proof (cases "varTable s n")
  case None
  then show ?thesis by (auto simp: SetData_def FindVariable_def)
next
  case (Some var)
  with assms(1) have b: "in_bounds s var"
    by (auto simp: consistent_def)
  show ?thesis
  proof (cases "sz > Size var")
    case True
    with Some show ?thesis by (auto simp: SetData_def FindVariable_def)
  next
    case False
    with b assms(2) have "\<exists>buf. memcpy (LocalDataBuffer (constantBuffers s ! ConstantBufferIndex var))
                             (ByteOffset var) bs sz = Some buf"
      by (intro memcpy_defined) (auto simp: in_bounds_def)
    with Some False b show ?thesis
      by (auto simp: SetData_def FindVariable_def in_bounds_def)
  qed
qed

lemma exec_defined:
  assumes "consistent s" and "enough_data op"
  shows "\<exists>p. exec d conv op s = Some p"
proof (cases op)
  case (Op_CopyBufferData_name n)
  with assms(1) show ?thesis
    by (auto simp: CopyBufferData_name_def FindConstantBuffer_def consistent_def
          split: option.splits)
next
  case (Op_SetData n bs sz)
  with assms SetData_defined [of s sz bs n] show ?thesis by auto
next
  case (Op_SetInt n w)
  with assms SetData_defined [of s 4 "bytes_of w" n] show ?thesis
    by (auto simp: setter_defs bytes_of_def)
next
  case (Op_SetFloat n w)
  with assms SetData_defined [of s 4 "bytes_of w" n] show ?thesis
    by (auto simp: setter_defs bytes_of_def)
next
  case (Op_SetFloat2 n bs)
  with assms SetData_defined [of s "4 * 2" bs n] show ?thesis
    by (auto simp: setter_defs)
next
  case (Op_SetFloat3 n bs)
  with assms SetData_defined [of s "4 * 3" bs n] show ?thesis
    by (auto simp: setter_defs)
next
  case (Op_SetFloat4 n bs)
  with assms SetData_defined [of s "4 * 4" bs n] show ?thesis
    by (auto simp: setter_defs)
next
  case (Op_SetMatrix4x4 n bs)
  with assms SetData_defined [of s "4 * 16" bs n] show ?thesis
    by (auto simp: setter_defs)
qed simp_all

lemma run_defined:
  "consistent s \<Longrightarrow> list_all enough_data ops \<Longrightarrow> \<exists>s'. run d conv ops s = Some s' \<and> consistent s'"
proof (induction ops arbitrary: s)
  case Nil
  then show ?case by simp
next
  case (Cons op ops)
  then obtain r s1 where 1: "exec d conv op s = Some (r, s1)"
    using exec_defined [of s op d conv] by auto
  from exec_consistent [OF 1 Cons.prems(1)] Cons.prems(2) Cons.IH [of s1] 1
  show ?case by auto
qed

lemma blank_consistent: "blank s \<Longrightarrow> consistent s"
  by (simp add: blank_def consistent_def)

lemma construct_consistent:
  assumes "construct d re rw c = Some s"
    and "\<And>blob rf. D3DReadFileToBlob d (shaderFile_of c) = Some blob \<Longrightarrow> D3DReflect blob = Some rf
           \<Longrightarrow> reflection_consistent rf"
  shows "consistent s"
proof (cases "shaderValid s")
  case False
  then show ?thesis
    using construct_invalid(1) [OF assms(1)] by (simp add: blank_consistent)
next
  case True
  from construct_valid [OF assms(1) True]
  obtain blob rf where f: "D3DReadFileToBlob d (shaderFile_of c) = Some blob"
    and r: "D3DReflect blob = Some rf"
    by blast
  let ?bds = "ConstantBuffers rf"
  have rc: "reflection_consistent rf"
    by (rule assms(2) [OF f r])
  have built: "map (\<lambda>cb. (cb_Size cb, LocalDataBuffer cb)) (constantBuffers s)
           = map (\<lambda>bd. (buf_Size bd, replicate (buf_Size bd) 0)) ?bds"
    by (rule construct_buffers [OF assms(1) True f r])
  have lay: "layout s = map (\<lambda>bd. (buf_Size bd, buf_Size bd)) ?bds"
    using arg_cong [OF built, of "map (\<lambda>p. (fst p, length (snd p)))"]
    by (simp add: layout_def comp_def)
  have vars: "ConstantBufferIndex var < length (layout s) \<and>
        ByteOffset var + Size var \<le> snd (layout s ! ConstantBufferIndex var)"
    if "varTable s name = Some var" for name var
  proof -
    from that have "(name, var) \<in> set (reflectedVariables 0 ?bds)"
      by (simp add: construct_varTable [OF assms(1) True f r] map_of_SomeD)
    then obtain i vd where i: "i < length ?bds" and vd: "vd \<in> set (buf_Variables (?bds ! i))"
      and var: "var = varStruct i vd"
      by (auto simp: reflectedVariables_set)
    from rc i vd have "StartOffset vd + var_Size vd \<le> buf_Size (?bds ! i)"
      by (auto simp: reflection_consistent_def)
    with i show ?thesis
      by (simp add: lay var varStruct_def)
  qed
  have cbs: "i < length (layout s)" if "cbTable s name = Some i" for name i
    using construct_cbTable [OF assms(1) True f r that] by (simp add: lay)
  show ?thesis
    unfolding consistent_layout
  proof (intro conjI allI impI)
    show "\<forall>p \<in> set (layout s). snd p = fst p"
      by (auto simp: lay)
  next
    fix name var assume "varTable s name = Some var"
    from vars [OF this] show "ConstantBufferIndex var < length (layout s)"
      by (rule conjunct1)
  next
    fix name var assume "varTable s name = Some var"
    from vars [OF this]
    show "ByteOffset var + Size var \<le> snd (layout s ! ConstantBufferIndex var)"
      by (rule conjunct2)
  next
    fix name i assume "cbTable s name = Some i"
    then show "i < length (layout s)"
      by (rule cbs)
  qed
qed

section \<open>Vertex shader: the synthesized input layout\<close>

lemma isPerInstance_suffix: "isPerInstance sem \<longleftrightarrow> suffix perInstanceStr sem"
proof
  assume "isPerInstance sem"
  then have le: "length perInstanceStr \<le> length sem"
    and eq: "take (length perInstanceStr) (drop (length sem - length perInstanceStr) sem) = perInstanceStr"
    by (simp_all add: isPerInstance_def Let_def nat_diff_distrib')
  from le have "take (length perInstanceStr) (drop (length sem - length perInstanceStr) sem)
                  = drop (length sem - length perInstanceStr) sem"
    by simp
  with eq have "sem = take (length sem - length perInstanceStr) sem @ perInstanceStr"
    by (metis append_take_drop_id)
  then show "suffix perInstanceStr sem"
    by (metis suffixI)
next
  assume "suffix perInstanceStr sem"
  then obtain zs where "sem = zs @ perInstanceStr"
    by (auto simp: suffix_def)
  then show "isPerInstance sem"
    by (simp add: isPerInstance_def Let_def)
qed

lemma inputLayoutLoop_eq:
  "inputLayoutLoop ps (acc, pic) =
     (acc @ map elementDesc ps, pic \<or> (\<exists>p \<in> set ps. isPerInstance (SemanticName p)))"
  by (induction ps arbitrary: acc pic) auto

lemma elementDesc_slot:
  "el_SemanticName (elementDesc p) = SemanticName p"
  "el_SemanticIndex (elementDesc p) = SemanticIndex p"
  "InputSlot (elementDesc p) = (if suffix perInstanceStr (SemanticName p) then 1 else 0)"
  "InputSlotClass (elementDesc p) =
     (if suffix perInstanceStr (SemanticName p) then D3D11_INPUT_PER_INSTANCE_DATA
      else D3D11_INPUT_PER_VERTEX_DATA)"
  "InstanceDataStepRate (elementDesc p) = (if suffix perInstanceStr (SemanticName p) then 1 else 0)"
  by (simp_all add: elementDesc_def Let_def isPerInstance_suffix)

text \<open>
  Claim C5. When the vertex shader object is created and no input layout was supplied,
  the layout requested from the device has one element per input parameter, in order and
  under the parameter's semantic name; the element is on slot 1, per instance, with step
  rate 1 exactly when the name ends with \<open>_PER_INSTANCE\<close>, and on slot 0, per vertex,
  with step rate 0 otherwise; and \<open>perInstanceCompatible\<close> ends up true exactly when it
  was true before or some parameter is per instance.
\<close>

theorem input_layout_synthesis:
  assumes "inputLayout s0 = None" and "CreateShader_ok d Vertex blob"
    and "D3DReflect blob = Some rf"
  shows "\<exists>s es. VS_CreateShader d blob s0 = Some (True, s)
           \<and> device s = device s0 @ [CreateInputLayout es]
           \<and> length es = length (InputParameters rf)
           \<and> (\<forall>i < length (InputParameters rf).
                 el_SemanticName (es ! i) = SemanticName (InputParameters rf ! i)
                 \<and> (if suffix ''_PER_INSTANCE'' (SemanticName (InputParameters rf ! i))
                     then InputSlot (es ! i) = 1
                          \<and> InputSlotClass (es ! i) = D3D11_INPUT_PER_INSTANCE_DATA
                          \<and> InstanceDataStepRate (es ! i) = 1
                     else InputSlot (es ! i) = 0
                          \<and> InputSlotClass (es ! i) = D3D11_INPUT_PER_VERTEX_DATA
                          \<and> InstanceDataStepRate (es ! i) = 0))
           \<and> (perInstanceCompatible s \<longleftrightarrow>
                 perInstanceCompatible s0
                 \<or> (\<exists>p \<in> set (InputParameters rf). suffix ''_PER_INSTANCE'' (SemanticName p)))"
proof -
  let ?ps = "InputParameters rf"
  let ?es = "map elementDesc ?ps"
  let ?pic = "perInstanceCompatible s0 \<or> (\<exists>p \<in> set ?ps. isPerInstance (SemanticName p))"
  define s where "s = (CleanUp s0)\<lparr>shader := True, perInstanceCompatible := ?pic,
      device := device s0 @ [CreateInputLayout ?es],
      inputLayout := (if CreateInputLayout_ok d ?es then Some (CreatedLayout ?es) else None)\<rparr>"
  have keep: "inputLayout (CleanUp s0) = inputLayout s0" "device (CleanUp s0) = device s0"
    "perInstanceCompatible (CleanUp s0) = perInstanceCompatible s0"
    by (simp_all add: CleanUp_def ISimpleShader_CleanUp_def)
  have run: "VS_CreateShader d blob s0 = Some (True, s)"
    using assms by (simp add: VS_CreateShader_def Let_def keep inputLayoutLoop_eq s_def)
  have dev: "device s = device s0 @ [CreateInputLayout ?es]"
    by (simp add: s_def)
  have els: "\<forall>i < length ?ps.
                 el_SemanticName (?es ! i) = SemanticName (?ps ! i)
                 \<and> (if suffix ''_PER_INSTANCE'' (SemanticName (?ps ! i))
                     then InputSlot (?es ! i) = 1
                          \<and> InputSlotClass (?es ! i) = D3D11_INPUT_PER_INSTANCE_DATA
                          \<and> InstanceDataStepRate (?es ! i) = 1
                     else InputSlot (?es ! i) = 0
                          \<and> InputSlotClass (?es ! i) = D3D11_INPUT_PER_VERTEX_DATA
                          \<and> InstanceDataStepRate (?es ! i) = 0)"
    using elementDesc_slot by (simp add: perInstanceStr_def)
  have pic: "perInstanceCompatible s \<longleftrightarrow>
                 perInstanceCompatible s0
                 \<or> (\<exists>p \<in> set ?ps. suffix ''_PER_INSTANCE'' (SemanticName p))"
    using isPerInstance_suffix by (simp add: s_def perInstanceStr_def)
  have len: "length ?es = length ?ps"
    by simp
  show ?thesis
    by (rule exI [of _ s], rule exI [of _ ?es], intro conjI) (rule run dev len els pic)+
qed

theorem input_layout_synthesis_witness:
  "inputLayout (fresh False False (New_SimpleVertexShader ''Shader.cso'')) = None
   \<and> CreateShader_ok sample_runtime Vertex sample_blob
   \<and> D3DReflect sample_blob = Some sample_reflection
   \<and> (\<exists>s es. VS_CreateShader sample_runtime sample_blob
                 (fresh False False (New_SimpleVertexShader ''Shader.cso'')) = Some (True, s)
          \<and> device s = [CreateInputLayout es]
          \<and> length es = 2
          \<and> InputSlot (es ! 0) = 0 \<and> InstanceDataStepRate (es ! 0) = 0
          \<and> InputSlot (es ! 1) = 1 \<and> InstanceDataStepRate (es ! 1) = 1
          \<and> perInstanceCompatible s)"
proof -
  let ?s0 = "fresh False False (New_SimpleVertexShader ''Shader.cso'')"
  have h1: "inputLayout ?s0 = None"
    by (simp add: ISimpleShader_def)
  have h2: "CreateShader_ok sample_runtime Vertex sample_blob"
    by (simp add: sample_runtime_def)
  have h3: "D3DReflect sample_blob = Some sample_reflection"
    by (simp add: sample_blob_def)
  have ps: "InputParameters sample_reflection =
     [\<lparr>SemanticName = ''POSITION'', SemanticIndex = 0, Mask = 7,
       ComponentType = D3D_REGISTER_COMPONENT_FLOAT32, Stream = 0\<rparr>,
      \<lparr>SemanticName = ''WORLD_PER_INSTANCE'', SemanticIndex = 0, Mask = 15,
       ComponentType = D3D_REGISTER_COMPONENT_FLOAT32, Stream = 0\<rparr>]"
    by (simp add: sample_reflection_def)
  have sf: "\<not> suffix ''_PER_INSTANCE'' ''POSITION''" "suffix ''_PER_INSTANCE'' ''WORLD_PER_INSTANCE''"
    by (simp_all add: suffix_to_prefix)
  from input_layout_synthesis [OF h1 h2 h3]
  obtain s es where run: "VS_CreateShader sample_runtime sample_blob ?s0 = Some (True, s)"
    and dev: "device s = device ?s0 @ [CreateInputLayout es]"
    and len: "length es = length (InputParameters sample_reflection)"
    and els: "\<forall>i < length (InputParameters sample_reflection).
                 el_SemanticName (es ! i) = SemanticName (InputParameters sample_reflection ! i)
                 \<and> (if suffix ''_PER_INSTANCE'' (SemanticName (InputParameters sample_reflection ! i))
                     then InputSlot (es ! i) = 1
                          \<and> InputSlotClass (es ! i) = D3D11_INPUT_PER_INSTANCE_DATA
                          \<and> InstanceDataStepRate (es ! i) = 1
                     else InputSlot (es ! i) = 0
                          \<and> InputSlotClass (es ! i) = D3D11_INPUT_PER_VERTEX_DATA
                          \<and> InstanceDataStepRate (es ! i) = 0)"
    and pic: "perInstanceCompatible s \<longleftrightarrow>
                 perInstanceCompatible ?s0
                 \<or> (\<exists>p \<in> set (InputParameters sample_reflection).
                       suffix ''_PER_INSTANCE'' (SemanticName p))"
    by (elim exE conjE) (rule that)
  have dev': "device s = [CreateInputLayout es]"
    using dev by (simp add: ISimpleShader_def)
  have len': "length es = 2"
    using len by (simp add: ps)
  have e0: "InputSlot (es ! 0) = 0" "InstanceDataStepRate (es ! 0) = 0"
    using els [rule_format, of 0] by (simp_all add: ps sf)
  have e1: "InputSlot (es ! 1) = 1" "InstanceDataStepRate (es ! 1) = 1"
    using els [rule_format, of 1] by (simp_all add: ps sf)
  have pic': "perInstanceCompatible s"
    using pic by (simp add: ps sf)
  have "\<exists>s es. VS_CreateShader sample_runtime sample_blob ?s0 = Some (True, s)
          \<and> device s = [CreateInputLayout es]
          \<and> length es = 2
          \<and> InputSlot (es ! 0) = 0 \<and> InstanceDataStepRate (es ! 0) = 0
          \<and> InputSlot (es ! 1) = 1 \<and> InstanceDataStepRate (es ! 1) = 1
          \<and> perInstanceCompatible s"
    by (rule exI [of _ s], rule exI [of _ es], intro conjI) (rule run dev' len' e0 e1 pic')+
  with h1 h2 h3 show ?thesis
    by (intro conjI)
qed

lemma variablesLoop_keeps [simp]:
  "inputLayout (variablesLoop b vds s) = inputLayout s"
  "perInstanceCompatible (variablesLoop b vds s) = perInstanceCompatible s"
  by (induction vds arbitrary: s) auto

lemma buffersLoop_keeps [simp]:
  "inputLayout (buffersLoop d rf b bds s) = inputLayout s"
  "perInstanceCompatible (buffersLoop d rf b bds s) = perInstanceCompatible s"
  by (induction bds arbitrary: s b) (auto simp: addBuffer_def)

lemma resourcesLoop_keeps [simp]:
  "inputLayout (resourcesLoop rs s) = inputLayout s"
  "perInstanceCompatible (resourcesLoop rs s) = perInstanceCompatible s"
  by (induction rs arbitrary: s) (auto simp: addResource_def Let_def)

text \<open>
  Claim C10. For a vertex program built without a caller-supplied input layout, the
  program is valid exactly when the device created the vertex shader object, whatever the
  outcome of the input-layout creation; so when the shader object is created and the
  layout creation fails, the program is valid and its input layout is null.
\<close>

theorem vertex_valid_ignores_layout:
  assumes "D3DReadFileToBlob d f = Some blob" and "D3DReflect blob = Some rf"
  shows "\<exists>s. construct d re rw (New_SimpleVertexShader f) = Some s
           \<and> (shaderValid s \<longleftrightarrow> CreateShader_ok d Vertex blob)
           \<and> (CreateShader_ok d Vertex blob
                \<and> \<not> CreateInputLayout_ok d (map elementDesc (InputParameters rf))
                \<longrightarrow> shaderValid s \<and> inputLayout s = None)"
proof (cases "CreateShader_ok d Vertex blob")
  case False
  then show ?thesis
    using assms
    by (simp add: construct_def LoadShaderFile_def CreateShader_def VS_CreateShader_def
          ISimpleShader_def Let_def)
next
  case True
  define s0 where "s0 = fresh re rw (New_SimpleVertexShader f)"
  let ?es = "map elementDesc (InputParameters rf)"
  have k: "kind s0 = Vertex" and l: "inputLayout s0 = None"
    by (simp_all add: s0_def ISimpleShader_def)
  have keep: "inputLayout (CleanUp s0) = None"
    using l by (simp add: CleanUp_def ISimpleShader_CleanUp_def)
  define s1 where "s1 = (CleanUp s0)\<lparr>shader := True,
      perInstanceCompatible := perInstanceCompatible (CleanUp s0)
         \<or> (\<exists>p \<in> set (InputParameters rf). isPerInstance (SemanticName p)),
      device := device (CleanUp s0) @ [CreateInputLayout ?es],
      inputLayout := (if CreateInputLayout_ok d ?es then Some (CreatedLayout ?es) else None)\<rparr>"
  have s1: "CreateShader d blob s0 = Some (True, s1)"
    using True assms(2)
    by (simp add: CreateShader_def k VS_CreateShader_def Let_def keep inputLayoutLoop_eq s1_def)
  have lay: "inputLayout s1 = (if CreateInputLayout_ok d ?es then Some (CreatedLayout ?es) else None)"
    by (simp add: s1_def)
  define s where "s = buffersLoop d rf 0 (ConstantBuffers rf)
                   (resourcesLoop (BoundResources rf) (s1\<lparr>shaderValid := True, constantBuffers := []\<rparr>))"
  have "construct d re rw (New_SimpleVertexShader f) = map_option snd (LoadShaderFile d f s0)"
    by (simp only: construct_def s0_def shaderFile_of.simps)
  then have run: "construct d re rw (New_SimpleVertexShader f) = Some s"
    using assms s1 by (simp add: LoadShaderFile_def s_def)
  have v: "shaderValid s"
    by (simp add: s_def)
  have "inputLayout s = inputLayout s1"
    by (simp add: s_def)
  with lay run v True show ?thesis
    by (intro exI [of _ s]) simp
qed

theorem vertex_valid_ignores_layout_witness:
  "D3DReadFileToBlob sample_runtime ''Shader.cso'' = Some sample_blob
   \<and> D3DReflect sample_blob = Some sample_reflection
   \<and> CreateShader_ok sample_runtime Vertex sample_blob
   \<and> \<not> CreateInputLayout_ok sample_runtime (map elementDesc (InputParameters sample_reflection))
   \<and> (\<exists>s. sample_vertex = Some s \<and> shaderValid s \<and> inputLayout s = None)"
proof -
  have f: "D3DReadFileToBlob sample_runtime ''Shader.cso'' = Some sample_blob"
    by (simp add: sample_runtime_def)
  have r: "D3DReflect sample_blob = Some sample_reflection"
    by (simp add: sample_blob_def)
  have ok: "CreateShader_ok sample_runtime Vertex sample_blob"
    by (simp add: sample_runtime_def)
  have no: "\<not> CreateInputLayout_ok sample_runtime (map elementDesc (InputParameters sample_reflection))"
    by (simp add: sample_runtime_def)
  from vertex_valid_ignores_layout [OF f r, of False False]
  obtain s where s: "construct sample_runtime False False (New_SimpleVertexShader ''Shader.cso'') = Some s"
    and imp: "CreateShader_ok sample_runtime Vertex sample_blob
                \<and> \<not> CreateInputLayout_ok sample_runtime (map elementDesc (InputParameters sample_reflection))
                \<longrightarrow> shaderValid s \<and> inputLayout s = None"
    by (elim exE conjE) (rule that)
  from imp ok no have v: "shaderValid s" and l: "inputLayout s = None"
    by simp_all
  have s': "sample_vertex = Some s"
    using s by (simp add: sample_vertex_def)
  have "\<exists>s. sample_vertex = Some s \<and> shaderValid s \<and> inputLayout s = None"
    by (rule exI [of _ s], intro conjI) (rule s' v l)+
  with f r ok no show ?thesis
    by (intro conjI)
qed

section \<open>Geometry shader: stream output\<close>

lemma and_exp_eq_exp_iff:
  fixes x :: "'a::len word"
  assumes "n < LENGTH('a)"
  shows "x AND 2 ^ n = 2 ^ n \<longleftrightarrow> bit x n"
proof
  assume eq: "x AND 2 ^ n = 2 ^ n"
  show "bit x n"
  proof (rule ccontr)
    assume "\<not> bit x n"
    then have "x AND 2 ^ n = 0"
      by (simp add: and_exp_eq_0_iff_not_bit)
    with eq have "(2 :: 'a word) ^ n = 0"
      by simp
    with assms show False
      by simp
  qed
next
  assume "bit x n"
  then show "x AND 2 ^ n = 2 ^ n"
    by (intro bit_eqI) (auto simp: bit_and_iff bit_exp_iff)
qed

lemma CalcComponentCount_bits:
  "CalcComponentCount x =
     of_bool (bit x 0) + of_bool (bit x 1) + of_bool (bit x 2) + of_bool (bit x 3)"
  using and_exp_eq_exp_iff [of 0 x] and_exp_eq_exp_iff [of 1 x]
    and_exp_eq_exp_iff [of 2 x] and_exp_eq_exp_iff [of 3 x]
  by (simp add: CalcComponentCount_def)

lemma CalcComponentCount_le: "CalcComponentCount x \<le> 4"
  by (simp add: CalcComponentCount_bits of_bool_def)

lemma upt_8: "[0..<8] = [0, 1, 2, 3, 4, 5, 6, 7]"
  by (simp add: upt_rec)

lemma set_bits_low:
  "set_bits (m AND 15) = of_bool (bit m 0) + of_bool (bit m 1) + of_bool (bit m 2) + of_bool (bit m 3)"
  by (simp add: set_bits_def upt_8 bit_and_iff)

lemma unat_CalcComponentCount:
  "unat (CalcComponentCount (ucast (m :: byte))) = set_bits (m AND 15)"
  by (simp add: CalcComponentCount_bits set_bits_low bit_ucast_iff of_bool_def)

lemma and_15_small:
  fixes m :: byte
  assumes "m \<le> 15"
  shows "m AND 15 = m"
proof -
  from assms have "m < 2 ^ 4"
    by (simp add: word_le_nat_alt word_less_nat_alt)
  then have "m AND mask 4 = m"
    by (rule less_mask_eq)
  then show ?thesis
    by (simp add: mask_eq_exp_minus_1)
qed

lemma ComponentCount_soEntry:
  "unat (ComponentCount (soEntry p)) = set_bits (Mask p AND 15)"
  "ComponentCount (soEntry p) \<le> 4"
  "(ucast (ComponentCount (soEntry p)) :: uint) = CalcComponentCount (ucast (Mask p))"
proof -
  let ?c = "CalcComponentCount (ucast (Mask p))"
  have le: "?c \<le> 4"
    by (rule CalcComponentCount_le)
  then have u: "unat ?c \<le> 4"
    by (simp add: word_le_nat_alt)
  have cc: "ComponentCount (soEntry p) = ucast ?c"
    by (simp add: soEntry_def)
  have small: "unat (ucast ?c :: byte) = unat ?c"
    using u by (simp add: unsigned_ucast_eq take_bit_nat_eq_self)
  show "unat (ComponentCount (soEntry p)) = set_bits (Mask p AND 15)"
    by (simp add: cc small unat_CalcComponentCount)
  show "ComponentCount (soEntry p) \<le> 4"
    using u by (simp add: cc word_le_nat_alt small)
  show "(ucast (ComponentCount (soEntry p)) :: uint) = ?c"
    using u by (simp add: cc word_unat_eq_iff unsigned_ucast_eq unsigned_take_bit_eq take_bit_nat_eq_self)
qed

lemma streamOutLoop_eq:
  "streamOutLoop ps (acc, sz) =
     (acc @ map soEntry ps,
      sz + sum_list (map (\<lambda>p. CalcComponentCount (ucast (Mask p)) * 4) ps))"
  by (induction ps arbitrary: acc sz) (simp_all add: ComponentCount_soEntry(3) add.assoc)

lemma unat_sum_list:
  "unat (sum_list ws :: uint) = sum_list (map unat ws) mod 2 ^ 32"
proof (induction ws)
  case Nil
  then show ?case by simp
next
  case (Cons w ws)
  have "unat (w + sum_list ws) = (unat w + unat (sum_list ws)) mod 2 ^ 32"
    by (simp add: unat_word_ariths)
  also have "\<dots> = (unat w + sum_list (map unat ws) mod 2 ^ 32) mod 2 ^ 32"
    by (simp add: Cons.IH)
  also have "\<dots> = (unat w + sum_list (map unat ws)) mod 2 ^ 32"
    by (rule mod_add_right_eq)
  finally show ?case by simp
qed

lemma unat_count_times_4:
  "unat (CalcComponentCount (ucast (m :: byte)) * 4) = set_bits (m AND 15) * 4"
proof -
  have "unat (CalcComponentCount (ucast m)) \<le> 4"
    using CalcComponentCount_le [of "ucast m"] by (simp add: word_le_nat_alt)
  then have "unat (CalcComponentCount (ucast m) * 4) = unat (CalcComponentCount (ucast m)) * 4"
    by (simp add: unat_word_ariths)
  then show ?thesis
    by (simp add: unat_CalcComponentCount)
qed

lemma set_bits_low_le: "set_bits (m AND 15) \<le> 4"
  by (simp add: set_bits_low of_bool_def)

lemma sum_list_le_length:
  "(\<And>x. x \<in> set xs \<Longrightarrow> f x \<le> c) \<Longrightarrow> sum_list (map f xs) \<le> length xs * (c :: nat)"
  by (induction xs) (auto simp: add_mono)

text \<open>
  Claim C6. When a geometry program is built with stream output enabled, the declaration
  handed to the device has one entry per output parameter, each with a component count of
  at most 4, and, the component masks being masks of the four components (values 0 to 15),
  each count is the number of set bits of the mask and the stride is the sum over the
  output parameters of that number times 4, kept in 32 bits. For a mask that also has
  higher bits set, the count is the number of set bits among the four low ones.
\<close>

theorem stream_out_stride:
  assumes "useStreamOut s0" and "D3DReflect blob = Some rf"
  shows "\<exists>ok s soDecl. GS_CreateShader d blob s0 = Some (ok, s)
           \<and> device s = device s0
                @ [CreateGeometryShaderWithStreamOutput soDecl (allowStreamOutRasterization s0)]
           \<and> length soDecl = length (OutputParameters rf)
           \<and> (\<forall>e \<in> set soDecl. ComponentCount e \<le> 4)
           \<and> (\<forall>i < length (OutputParameters rf).
                 unat (ComponentCount (soDecl ! i)) = set_bits (Mask (OutputParameters rf ! i) AND 15))
           \<and> unat (streamOutVertexSize s)
               = (\<Sum>p\<leftarrow>OutputParameters rf. set_bits (Mask p AND 15) * 4) mod 2 ^ 32
           \<and> ((\<forall>p \<in> set (OutputParameters rf). Mask p \<le> 15) \<longrightarrow>
                 (\<forall>i < length (OutputParameters rf).
                    unat (ComponentCount (soDecl ! i)) = set_bits (Mask (OutputParameters rf ! i)))
                 \<and> unat (streamOutVertexSize s)
                     = (\<Sum>p\<leftarrow>OutputParameters rf. set_bits (Mask p) * 4) mod 2 ^ 32
                 \<and> (length (OutputParameters rf) < 2 ^ 28 \<longrightarrow>
                      unat (streamOutVertexSize s)
                        = (\<Sum>p\<leftarrow>OutputParameters rf. set_bits (Mask p) * 4)))"
proof -
  let ?ps = "OutputParameters rf"
  let ?decl = "map soEntry ?ps"
  let ?sz = "sum_list (map (\<lambda>p. CalcComponentCount (ucast (Mask p)) * 4) ?ps)"
  define s1 where "s1 = (CleanUp (CleanUp s0))\<lparr>streamOutVertexSize := ?sz,
      device := device s0 @ [CreateGeometryShaderWithStreamOutput ?decl (allowStreamOutRasterization s0)]\<rparr>"
  define ok where "ok = CreateShader_ok d Geometry blob"
  define s where "s = (if ok then s1\<lparr>shader := True\<rparr> else s1)"
  have keep: "useStreamOut (CleanUp s0)" "device (CleanUp (CleanUp s0)) = device s0"
    "allowStreamOutRasterization (CleanUp (CleanUp s0)) = allowStreamOutRasterization s0"
    using assms(1) by (simp_all add: CleanUp_def ISimpleShader_CleanUp_def)
  have run: "GS_CreateShader d blob s0 = Some (ok, s)"
    using assms(2) keep
    by (simp add: GS_CreateShader_def CreateShaderWithStreamOut_def Let_def streamOutLoop_eq
          s_def s1_def ok_def)
  have dev: "device s = device s0
                @ [CreateGeometryShaderWithStreamOutput ?decl (allowStreamOutRasterization s0)]"
    by (simp add: s_def s1_def)
  have len: "length ?decl = length ?ps"
    by simp
  have le4: "\<forall>e \<in> set ?decl. ComponentCount e \<le> 4"
    by (simp add: ComponentCount_soEntry(2))
  have cnt: "\<forall>i < length ?ps. unat (ComponentCount (?decl ! i)) = set_bits (Mask (?ps ! i) AND 15)"
    by (simp add: ComponentCount_soEntry(1))
  have "streamOutVertexSize s = ?sz"
    by (simp add: s_def s1_def)
  then have stride: "unat (streamOutVertexSize s)
               = (\<Sum>p\<leftarrow>?ps. set_bits (Mask p AND 15) * 4) mod 2 ^ 32"
    by (simp add: unat_sum_list comp_def unat_count_times_4)
  have masks: "(\<forall>i < length ?ps. unat (ComponentCount (?decl ! i)) = set_bits (Mask (?ps ! i)))
                 \<and> unat (streamOutVertexSize s) = (\<Sum>p\<leftarrow>?ps. set_bits (Mask p) * 4) mod 2 ^ 32
                 \<and> (length ?ps < 2 ^ 28 \<longrightarrow>
                      unat (streamOutVertexSize s) = (\<Sum>p\<leftarrow>?ps. set_bits (Mask p) * 4))"
    if small: "\<forall>p \<in> set ?ps. Mask p \<le> 15"
  proof -
    have same: "set_bits (Mask p AND 15) = set_bits (Mask p)" if "p \<in> set ?ps" for p
      using small that by (simp add: and_15_small)
    have maps: "map (\<lambda>p. set_bits (Mask p AND 15) * 4) ?ps = map (\<lambda>p. set_bits (Mask p) * 4) ?ps"
      using same by simp
    have 1: "\<forall>i < length ?ps. unat (ComponentCount (?decl ! i)) = set_bits (Mask (?ps ! i))"
      using cnt same by simp
    have 2: "unat (streamOutVertexSize s) = (\<Sum>p\<leftarrow>?ps. set_bits (Mask p) * 4) mod 2 ^ 32"
      using stride by (simp only: maps)
    have 3: "unat (streamOutVertexSize s) = (\<Sum>p\<leftarrow>?ps. set_bits (Mask p) * 4)"
      if short: "length ?ps < 2 ^ 28"
    proof -
      have "set_bits (Mask p) * 4 \<le> 16" if "p \<in> set ?ps" for p
        using set_bits_low_le [of "Mask p"] same [OF that] by simp
      then have "(\<Sum>p\<leftarrow>?ps. set_bits (Mask p) * 4) \<le> length ?ps * 16"
        by (rule sum_list_le_length)
      with short have "(\<Sum>p\<leftarrow>?ps. set_bits (Mask p) * 4) < 2 ^ 32"
        by simp
      with 2 show ?thesis by simp
    qed
    from 1 2 3 show ?thesis by blast
  qed
  show ?thesis
    apply (rule exI [of _ ok], rule exI [of _ s], rule exI [of _ ?decl])
    apply (intro conjI impI)
           apply (rule run)
          apply (rule dev)
         apply (rule len)
        apply (rule le4)
       apply (rule cnt)
      apply (rule stride)
     apply (erule masks [THEN conjunct1])
    apply (erule masks [THEN conjunct2, THEN conjunct1])
    apply (drule masks [THEN conjunct2, THEN conjunct2])
    apply (erule (1) mp)
    done
qed

lemma set_bits_sample: "set_bits 15 = 4" "set_bits 7 = 3"
  by (simp_all add: set_bits_def upt_8)

theorem stream_out_stride_witness:
  "useStreamOut (fresh False False (New_SimpleGeometryShader ''Shader.cso'' True False))
   \<and> D3DReflect sample_blob = Some sample_reflection
   \<and> map Mask (OutputParameters sample_reflection) = [15, 7]
   \<and> (\<exists>ok s soDecl.
         GS_CreateShader sample_runtime sample_blob
           (fresh False False (New_SimpleGeometryShader ''Shader.cso'' True False)) = Some (ok, s)
         \<and> device s = [CreateGeometryShaderWithStreamOutput soDecl False]
         \<and> unat (ComponentCount (soDecl ! 0)) = 4 \<and> unat (ComponentCount (soDecl ! 1)) = 3
         \<and> unat (streamOutVertexSize s) = 28)"
proof -
  let ?s0 = "fresh False False (New_SimpleGeometryShader ''Shader.cso'' True False)"
  let ?ps = "OutputParameters sample_reflection"
  have h1: "useStreamOut ?s0"
    by (simp add: ISimpleShader_def)
  have h2: "D3DReflect sample_blob = Some sample_reflection"
    by (simp add: sample_blob_def)
  have ps: "?ps =
        [\<lparr>SemanticName = ''SV_POSITION'', SemanticIndex = 0, Mask = 15,
          ComponentType = D3D_REGISTER_COMPONENT_FLOAT32, Stream = 0\<rparr>,
         \<lparr>SemanticName = ''COLOR'', SemanticIndex = 0, Mask = 7,
          ComponentType = D3D_REGISTER_COMPONENT_FLOAT32, Stream = 0\<rparr>]"
    by (simp add: sample_reflection_def)
  have h3: "\<forall>p \<in> set ?ps. Mask p \<le> 15"
    by (simp add: ps)
  have h4: "length ?ps < 2 ^ 28"
    by (simp add: ps)
  from stream_out_stride [OF h1 h2, of sample_runtime]
  obtain ok s soDecl where run: "GS_CreateShader sample_runtime sample_blob ?s0 = Some (ok, s)"
    and dev: "device s = device ?s0
                @ [CreateGeometryShaderWithStreamOutput soDecl (allowStreamOutRasterization ?s0)]"
    and masks: "(\<forall>p \<in> set ?ps. Mask p \<le> 15) \<longrightarrow>
                 (\<forall>i < length ?ps. unat (ComponentCount (soDecl ! i)) = set_bits (Mask (?ps ! i)))
                 \<and> unat (streamOutVertexSize s) = (\<Sum>p\<leftarrow>?ps. set_bits (Mask p) * 4) mod 2 ^ 32
                 \<and> (length ?ps < 2 ^ 28 \<longrightarrow>
                      unat (streamOutVertexSize s) = (\<Sum>p\<leftarrow>?ps. set_bits (Mask p) * 4))"
    by (elim exE conjE) (rule that)
  from masks h3 h4
  have cnt: "\<forall>i < length ?ps. unat (ComponentCount (soDecl ! i)) = set_bits (Mask (?ps ! i))"
    and stride: "unat (streamOutVertexSize s) = (\<Sum>p\<leftarrow>?ps. set_bits (Mask p) * 4)"
    by simp_all
  have dev': "device s = [CreateGeometryShaderWithStreamOutput soDecl False]"
    using dev by (simp add: ISimpleShader_def)
  have c0: "unat (ComponentCount (soDecl ! 0)) = 4"
    using cnt [rule_format, of 0] by (simp add: ps set_bits_sample)
  have c1: "unat (ComponentCount (soDecl ! 1)) = 3"
    using cnt [rule_format, of 1] by (simp add: ps set_bits_sample)
  have st: "unat (streamOutVertexSize s) = 28"
    using stride by (simp add: ps set_bits_sample)
  have "\<exists>ok s soDecl.
         GS_CreateShader sample_runtime sample_blob ?s0 = Some (ok, s)
         \<and> device s = [CreateGeometryShaderWithStreamOutput soDecl False]
         \<and> unat (ComponentCount (soDecl ! 0)) = 4 \<and> unat (ComponentCount (soDecl ! 1)) = 3
         \<and> unat (streamOutVertexSize s) = 28"
    by (rule exI [of _ ok], rule exI [of _ s], rule exI [of _ soDecl], intro conjI)
       (rule run dev' c0 c1 st)+
  moreover have "map Mask ?ps = [15, 7]"
    by (simp add: ps)
  ultimately show ?thesis
    using h1 h2 by (intro conjI)
qed

text \<open>
  \<open>CreateCompatibleStreamOutBuffer\<close> returns false and asks the device for nothing when
  the program was not constructed for stream output, or is invalid, or has a stride of
  zero. Otherwise it asks the device for one buffer and returns whether the device created
  it. The byte width it asks for is the 32-bit product of the stride and the vertex count:
  that is the stride times the vertex count only when the count is not negative and the
  product is below \<open>2 ^ 32\<close>.
\<close>

lemma CreateCompatibleStreamOutBuffer_request:
  "(\<not> useStreamOut s \<or> \<not> shaderValid s \<or> streamOutVertexSize s = 0 \<longrightarrow>
      fst (CreateCompatibleStreamOutBuffer d s vertexCount) = False
      \<and> device (snd (CreateCompatibleStreamOutBuffer d s vertexCount)) = device s)
   \<and> (useStreamOut s \<and> shaderValid s \<and> streamOutVertexSize s \<noteq> 0 \<longrightarrow>
      device (snd (CreateCompatibleStreamOutBuffer d s vertexCount))
        = device s @ [CreateBuffer (unat (streamOutVertexSize s * word_of_int vertexCount))]
      \<and> fst (CreateCompatibleStreamOutBuffer d s vertexCount)
        = CreateBuffer_ok d (unat (streamOutVertexSize s * word_of_int vertexCount))
      \<and> (0 \<le> vertexCount \<and> unat (streamOutVertexSize s) * nat vertexCount < 2 ^ 32 \<longrightarrow>
           unat (streamOutVertexSize s * word_of_int vertexCount)
             = unat (streamOutVertexSize s) * nat vertexCount))"
proof -
  have "unat (streamOutVertexSize s * word_of_int vertexCount)
             = unat (streamOutVertexSize s) * nat vertexCount"
    if "0 \<le> vertexCount" and "unat (streamOutVertexSize s) * nat vertexCount < 2 ^ 32"
  proof -
    from that(1) have "(word_of_int vertexCount :: uint) = word_of_nat (nat vertexCount)"
      by simp
    then have "unat (streamOutVertexSize s * word_of_int vertexCount)
                 = (unat (streamOutVertexSize s) * (nat vertexCount mod 2 ^ 32)) mod 2 ^ 32"
      by (simp add: unat_word_ariths unat_of_nat)
    also have "\<dots> = (unat (streamOutVertexSize s) * nat vertexCount) mod 2 ^ 32"
      by (simp add: mod_mult_right_eq)
    finally show ?thesis
      using that(2) by simp
  qed
  then show ?thesis
    by (simp add: CreateCompatibleStreamOutBuffer_def Let_def err_def)
qed

lemma variablesLoop_stream [simp]:
  "useStreamOut (variablesLoop b vds s) = useStreamOut s"
  "streamOutVertexSize (variablesLoop b vds s) = streamOutVertexSize s"
  by (induction vds arbitrary: s) auto

lemma buffersLoop_stream [simp]:
  "useStreamOut (buffersLoop d rf b bds s) = useStreamOut s"
  "streamOutVertexSize (buffersLoop d rf b bds s) = streamOutVertexSize s"
  by (induction bds arbitrary: s b) (auto simp: addBuffer_def)

lemma resourcesLoop_stream [simp]:
  "useStreamOut (resourcesLoop rs s) = useStreamOut s"
  "streamOutVertexSize (resourcesLoop rs s) = streamOutVertexSize s"
  by (induction rs arbitrary: s) (auto simp: addResource_def Let_def)

lemma sample_geometry_state:
  obtains s where "sample_geometry = Some s" and "shaderValid s" and "useStreamOut s"
    and "streamOutVertexSize s = 28"
    and "device s = [CreateGeometryShaderWithStreamOutput
                       (map soEntry (OutputParameters sample_reflection)) False,
                     CreateBuffer 32, CreateBuffer 16]"
proof -
  have sz: "sum_list (map (\<lambda>p. CalcComponentCount (ucast (Mask p)) * 4)
              (OutputParameters sample_reflection)) = 28"
    by (simp add: sample_reflection_def CalcComponentCount_def)
  obtain s where "sample_geometry = Some s" and "shaderValid s" and "useStreamOut s"
    and "streamOutVertexSize s = 28"
    and "device s = [CreateGeometryShaderWithStreamOutput
                       (map soEntry (OutputParameters sample_reflection)) False,
                     CreateBuffer 32, CreateBuffer 16]"
    by (simp add: sample_geometry_def construct_def LoadShaderFile_def sample_runtime_def
          create_defs sample_blob_def ISimpleShader_def streamOutLoop_eq sz)
       (simp add: sample_reflection_def)
  then show thesis
    by (rule that)
qed

lemma CreateCompatibleStreamOutBuffer_sample:
  "\<exists>s. sample_geometry = Some s \<and> useStreamOut s \<and> shaderValid s
      \<and> streamOutVertexSize s = 28
      \<and> fst (CreateCompatibleStreamOutBuffer sample_runtime s 100)
      \<and> device (snd (CreateCompatibleStreamOutBuffer sample_runtime s 100))
          = device s @ [CreateBuffer 2800]
      \<and> \<not> fst (CreateCompatibleStreamOutBuffer sample_runtime (s\<lparr>shaderValid := False\<rparr>) 100)
      \<and> device (snd (CreateCompatibleStreamOutBuffer sample_runtime (s\<lparr>shaderValid := False\<rparr>) 100))
          = device s"
proof -
  obtain s where s: "sample_geometry = Some s" and v: "shaderValid s" and u: "useStreamOut s"
    and st: "streamOutVertexSize s = 28"
    and "device s = [CreateGeometryShaderWithStreamOutput
                       (map soEntry (OutputParameters sample_reflection)) False,
                     CreateBuffer 32, CreateBuffer 16]"
    by (rule sample_geometry_state)
  have w: "unat (streamOutVertexSize s * word_of_int 100) = 2800"
    by (simp add: st)
  have ok: "CreateBuffer_ok sample_runtime 2800"
    by (simp add: sample_runtime_def)
  from CreateCompatibleStreamOutBuffer_request [of s sample_runtime 100, THEN conjunct2] u v st
  have 1: "fst (CreateCompatibleStreamOutBuffer sample_runtime s 100)"
    and 2: "device (snd (CreateCompatibleStreamOutBuffer sample_runtime s 100))
          = device s @ [CreateBuffer 2800]"
    using w ok by simp_all
  from CreateCompatibleStreamOutBuffer_request [of "s\<lparr>shaderValid := False\<rparr>" sample_runtime 100, THEN conjunct1]
  have 3: "\<not> fst (CreateCompatibleStreamOutBuffer sample_runtime (s\<lparr>shaderValid := False\<rparr>) 100)"
    and 4: "device (snd (CreateCompatibleStreamOutBuffer sample_runtime (s\<lparr>shaderValid := False\<rparr>) 100))
          = device s"
    by simp_all
  show ?thesis
    by (rule exI [of _ s], intro conjI) (rule s u v st 1 2 3 4)+
qed

text \<open>
  Claim C9 fails on the code. On a valid stream-output program with a stride of 28 bytes,
  asked for a buffer of 153391690 vertices, which need \<open>28 * 153391690 = 2 ^ 32 + 24\<close>
  bytes, the call asks the device for a buffer of 24 bytes, the product cut to 32 bits,
  and returns true when the device creates it: a buffer that holds no vertex at all, where
  the claim has a request of \<open>stride * vertexCount\<close> bytes. The sample geometry program
  is such a program.
\<close>

theorem stream_out_buffer_too_small:
  assumes "useStreamOut s" and "shaderValid s" and "streamOutVertexSize s = 28"
  shows "fst (CreateCompatibleStreamOutBuffer d s 153391690) = CreateBuffer_ok d 24
       \<and> device (snd (CreateCompatibleStreamOutBuffer d s 153391690))
           = device s @ [CreateBuffer 24]
       \<and> unat (streamOutVertexSize s) * nat 153391690 = 2 ^ 32 + 24"
proof -
  have w: "unat (28 * word_of_int 153391690 :: uint) = 24"
    by simp
  show ?thesis
    using assms by (simp add: CreateCompatibleStreamOutBuffer_def Let_def w [simplified])
qed

theorem stream_out_buffer_too_small_witness:
  "\<exists>s. sample_geometry = Some s \<and> useStreamOut s \<and> shaderValid s
      \<and> streamOutVertexSize s = 28
      \<and> fst (CreateCompatibleStreamOutBuffer sample_runtime s 153391690)
      \<and> device (snd (CreateCompatibleStreamOutBuffer sample_runtime s 153391690))
          = device s @ [CreateBuffer 24]
      \<and> unat (streamOutVertexSize s) * nat 153391690 = 2 ^ 32 + 24"
proof -
  obtain s where s: "sample_geometry = Some s" and v: "shaderValid s" and u: "useStreamOut s"
    and st: "streamOutVertexSize s = 28"
    and "device s = [CreateGeometryShaderWithStreamOutput
                       (map soEntry (OutputParameters sample_reflection)) False,
                     CreateBuffer 32, CreateBuffer 16]"
    by (rule sample_geometry_state)
  have ok: "CreateBuffer_ok sample_runtime 24"
    by (simp add: sample_runtime_def)
  note t = stream_out_buffer_too_small [OF u v st, of sample_runtime]
  have 1: "fst (CreateCompatibleStreamOutBuffer sample_runtime s 153391690)"
    using t [THEN conjunct1] ok by simp
  have 2: "device (snd (CreateCompatibleStreamOutBuffer sample_runtime s 153391690))
          = device s @ [CreateBuffer 24]"
    by (rule t [THEN conjunct2, THEN conjunct1])
  have 3: "unat (streamOutVertexSize s) * nat 153391690 = 2 ^ 32 + 24"
    by (rule t [THEN conjunct2, THEN conjunct2])
  show ?thesis
    by (rule exI [of _ s], intro conjI) (rule s u v st 1 2 3)+
qed

section \<open>Programs that failed to build\<close>

lemma blank_lookups:
  assumes "blank s"
  shows "FindVariable s n sz = None" and "FindConstantBuffer s n = None"
    and "GetShaderResourceViewInfo_name s n = None" and "GetSamplerInfo_name s n = None"
    and "GetShaderResourceViewInfo_index s i = None" and "GetSamplerInfo_index s i = None"
    and "GetUnorderedAccessViewIndex s n = - 1" and "constantBufferCount s = 0"
  using assms
  by (simp_all add: blank_def FindVariable_def FindConstantBuffer_def
        GetShaderResourceViewInfo_name_def GetSamplerInfo_name_def
        GetShaderResourceViewInfo_index_def GetSamplerInfo_index_def
        GetUnorderedAccessViewIndex_def constantBufferCount_def)

lemma console_only_warn: "warn e s = s\<lparr>console := console (warn e s)\<rparr>"
  "deviceContext (warn e s) = deviceContext s" "device (warn e s) = device s"
  "\<not> ReportWarnings s \<Longrightarrow> warn e s = s"
  by (simp_all add: warn_def)

lemma console_only_err: "err e s = s\<lparr>console := console (err e s)\<rparr>"
  "deviceContext (err e s) = deviceContext s" "device (err e s) = device s"
  "\<not> ReportErrors s \<Longrightarrow> err e s = s"
  by (simp_all add: err_def)

lemma inert_refl: "inert s s"
  by (simp add: inert_def)

lemma inert_warn: "inert s (warn e s)"
  using console_only_warn [where e = e and s = s] by (simp add: inert_def)

lemma inert_err: "inert s (err e s)"
  using console_only_err [where e = e and s = s] by (simp add: inert_def)

lemma blank_SetData:
  "blank s \<Longrightarrow> SetData s n bs sz = Some (False, warn (Warning_VariableNotFound n) s)"
  by (simp add: SetData_def blank_lookups)

lemma blank_exec:
  assumes "blank s" and "\<not> shaderValid s" and "\<not> unguarded op"
  shows "\<exists>s'. exec d conv op s = Some (not_found op, s') \<and> inert s s'"
proof (cases op)
  case Op_SetShader
  with assms show ?thesis by (simp add: SetShader_def inert_refl)
next
  case Op_CopyAllBufferData
  with assms show ?thesis by (simp add: CopyAllBufferData_def inert_refl)
next
  case (Op_CopyBufferData_index i)
  with assms show ?thesis by (simp add: CopyBufferData_index_def inert_refl)
next
  case (Op_CopyBufferData_name n)
  with assms show ?thesis by (simp add: CopyBufferData_name_def inert_refl)
next
  case (Op_SetData n bs sz)
  with assms show ?thesis by (simp add: blank_SetData flagged_def inert_warn)
next
  case (Op_SetInt n w)
  with assms show ?thesis by (simp add: SetInt_def blank_SetData flagged_def inert_warn)
next
  case (Op_SetFloat n w)
  with assms show ?thesis by (simp add: SetFloat_def blank_SetData flagged_def inert_warn)
next
  case (Op_SetFloat2 n bs)
  with assms show ?thesis by (simp add: SetFloat2_def blank_SetData flagged_def inert_warn)
next
  case (Op_SetFloat3 n bs)
  with assms show ?thesis by (simp add: SetFloat3_def blank_SetData flagged_def inert_warn)
next
  case (Op_SetFloat4 n bs)
  with assms show ?thesis by (simp add: SetFloat4_def blank_SetData flagged_def inert_warn)
next
  case (Op_SetMatrix4x4 n bs)
  with assms show ?thesis by (simp add: SetMatrix4x4_def blank_SetData flagged_def inert_warn)
next
  case (Op_HasVariable n)
  with assms show ?thesis by (simp add: HasVariable_def blank_lookups inert_refl)
next
  case (Op_HasShaderResourceView n)
  with assms show ?thesis by (simp add: HasShaderResourceView_def blank_lookups inert_refl)
next
  case (Op_HasSamplerState n)
  with assms show ?thesis by (simp add: HasSamplerState_def blank_lookups inert_refl)
next
  case (Op_GetVariableInfo n)
  with assms show ?thesis by (simp add: GetVariableInfo_def blank_lookups inert_refl)
next
  case (Op_GetShaderResourceViewInfo_name n)
  with assms show ?thesis by (simp add: blank_lookups inert_refl)
next
  case (Op_GetShaderResourceViewInfo_index i)
  with assms show ?thesis by (simp add: blank_lookups inert_refl)
next
  case (Op_GetSamplerInfo_name n)
  with assms show ?thesis by (simp add: blank_lookups inert_refl)
next
  case (Op_GetSamplerInfo_index i)
  with assms show ?thesis by (simp add: blank_lookups inert_refl)
next
  case Op_GetBufferCount
  with assms show ?thesis by (simp add: GetBufferCount_def blank_lookups inert_refl)
next
  case (Op_GetBufferSize i)
  with assms show ?thesis by (simp add: GetBufferSize_def blank_lookups inert_refl)
next
  case (Op_GetBufferInfo_name n)
  with assms show ?thesis by (simp add: GetBufferInfo_name_def blank_lookups inert_refl)
next
  case (Op_GetBufferInfo_index i)
  with assms show ?thesis by (simp add: GetBufferInfo_index_def blank_lookups inert_refl)
next
  case (Op_SetShaderResourceView n h)
  with assms show ?thesis
    by (simp add: SetShaderResourceView_def blank_lookups flagged_def inert_warn)
next
  case (Op_SetSamplerState n h)
  with assms show ?thesis
    by (simp add: SetSamplerState_def blank_lookups flagged_def inert_warn)
next
  case (Op_CreateCompatibleStreamOutBuffer n)
  with assms show ?thesis
    by (simp add: CreateCompatibleStreamOutBuffer_def flagged_def inert_err)
next
  case Op_UnbindStreamOutStage
  with assms show ?thesis by simp
next
  case (Op_DispatchByGroups x y z)
  with assms show ?thesis by simp
next
  case (Op_DispatchByThreads x y z)
  with assms show ?thesis by simp
next
  case (Op_HasUnorderedAccessView n)
  with assms show ?thesis by (simp add: HasUnorderedAccessView_def blank_lookups inert_refl)
next
  case (Op_SetUnorderedAccessView n h off)
  with assms show ?thesis
    by (simp add: SetUnorderedAccessView_def blank_lookups flagged_def inert_warn)
qed

text \<open>
  Claim C3, as the code has it. On a program whose load or shader-object creation failed,
  every call of the public interface other than \<open>DispatchByGroups\<close>, \<open>DispatchByThreads\<close>
  and \<open>UnbindStreamOutStage\<close> returns false or not-found, issues no call to the device
  context or the device, and leaves the program unchanged but for a diagnostic printed
  when error or warning reporting is switched on.
\<close>

theorem invalid_program_inert:
  assumes "construct d re rw c = Some s" and "\<not> shaderValid s" and "\<not> unguarded op"
  shows "\<exists>s'. exec d' conv op s = Some (not_found op, s')
           \<and> s' = s\<lparr>console := console s'\<rparr>
           \<and> deviceContext s' = deviceContext s \<and> device s' = device s
           \<and> (\<not> ReportErrors s \<and> \<not> ReportWarnings s \<longrightarrow> s' = s)"
  using blank_exec [OF construct_invalid(1) [OF assms(1,2)] assms(2,3), of d' conv]
  unfolding inert_def .

lemma failed_compute_state:
  "failed_compute = Some (fresh False False (New_SimpleComputeShader ''Missing.cso''))"
  by (simp add: failed_compute_def construct_def LoadShaderFile_def sample_runtime_def err_def
        ISimpleShader_def)

theorem invalid_program_inert_witness:
  "\<exists>s. failed_compute = Some s \<and> \<not> shaderValid s
      \<and> \<not> unguarded (Op_SetInt ''LightCount'' 7) \<and> \<not> unguarded Op_SetShader
      \<and> exec sample_runtime sample_conversion (Op_SetInt ''LightCount'' 7) s = Some (Flag False, s)
      \<and> exec sample_runtime sample_conversion Op_SetShader s = Some (Void, s)"
proof -
  let ?s = "fresh False False (New_SimpleComputeShader ''Missing.cso'')"
  have c: "construct sample_runtime False False (New_SimpleComputeShader ''Missing.cso'') = Some ?s"
    using failed_compute_state by (simp add: failed_compute_def)
  have v: "\<not> shaderValid ?s"
    by (simp add: ISimpleShader_def)
  have quiet: "\<not> ReportErrors ?s \<and> \<not> ReportWarnings ?s"
    by (simp add: ISimpleShader_def)
  have u1: "\<not> unguarded (Op_SetInt ''LightCount'' 7)" and u2: "\<not> unguarded Op_SetShader"
    by simp_all
  from invalid_program_inert [OF c v u1, of sample_runtime sample_conversion] quiet
  have 1: "exec sample_runtime sample_conversion (Op_SetInt ''LightCount'' 7) ?s = Some (Flag False, ?s)"
    by (elim exE conjE) simp
  from invalid_program_inert [OF c v u2, of sample_runtime sample_conversion] quiet
  have 2: "exec sample_runtime sample_conversion Op_SetShader ?s = Some (Void, ?s)"
    by (elim exE conjE) simp
  show ?thesis
    by (rule exI [of _ ?s], intro conjI) (rule failed_compute_state v u1 u2 1 2)+
qed

text \<open>
  Claim C3 as stated fails: on a compute program whose file is missing, both dispatch
  calls issue \<open>Dispatch\<close> to the device context.
\<close>

theorem invalid_program_dispatches:
  "map_option shaderValid failed_compute = Some False
   \<and> map_option deviceContext failed_compute = Some []
   \<and> map_option deviceContext
        (Option.bind failed_compute
           (run sample_runtime sample_conversion [Op_DispatchByGroups 3 2 1]))
       = Some [Dispatch 3 2 1]
   \<and> map_option deviceContext
        (Option.bind failed_compute
           (run sample_runtime sample_conversion [Op_DispatchByThreads 10 3 3]))
       = Some [Dispatch 1 1 1]"
  by (simp add: failed_compute_state ISimpleShader_def DispatchByGroups_def
        DispatchByThreads_def groupCount_def sample_conversion_def)

section \<open>Compute shader: dispatch by threads\<close>

lemma bit_length_numeral:
  "bit_length 0 = 0"
  "bit_length (Suc 0) = 1"
  "bit_length 1 = 1"
  "bit_length (numeral (Num.Bit0 k)) = Suc (bit_length (numeral k))"
  "bit_length (numeral (Num.Bit1 k)) = Suc (bit_length (numeral k))"
proof -
  show "bit_length 0 = 0"
    by (simp add: bit_length.simps [of 0])
  show "bit_length (Suc 0) = 1"
    by (subst bit_length.simps) (simp add: bit_length.simps [of 0])
  then show "bit_length 1 = 1"
    by simp
  show "bit_length (numeral (Num.Bit0 k)) = Suc (bit_length (numeral k))"
    by (subst bit_length.simps) simp
  show "bit_length (numeral (Num.Bit1 k)) = Suc (bit_length (numeral k))"
    by (subst bit_length.simps) simp
qed

lemmas float_defs = float_of_uint_def float_div_def nearest_even_def Let_def bit_length_numeral

text \<open>
  The arithmetic agrees with single precision on familiar values: \<open>2 ^ 24 + 1\<close> is not
  a float and converts to \<open>2 ^ 24\<close>, \<open>2 ^ 24 + 3\<close> converts to \<open>2 ^ 24 + 4\<close>, and the
  quotients \<open>1 / 3\<close> and \<open>10 / 3\<close> are the floats with the bit patterns \<^verbatim>\<open>3EAAAAAB\<close> and
  \<^verbatim>\<open>40555555\<close>.
\<close>

lemma float_samples:
  "float_of_uint 16777216 = 16777216" "float_of_uint 16777217 = 16777216"
  "float_of_uint 16777219 = 16777220" "float_of_uint 4294967295 = 4294967296"
  "float_div 1 3 = (11184811, 2 ^ 25)" "float_div 10 3 = (13981013, 2 ^ 22)"
  by (simp_all add: float_defs)

lemma bit_length_upper: "n < 2 ^ bit_length n"
proof (induction n rule: bit_length.induct)
  case (1 n)
  show ?case
  proof (cases "n = 0")
    case True
    then show ?thesis by simp
  next
    case False
    with 1 have "n div 2 < 2 ^ bit_length (n div 2)"
      by simp
    then have "n < 2 * 2 ^ bit_length (n div 2)"
      by linarith
    then show ?thesis
      using False by (subst bit_length.simps) simp
  qed
qed

lemma bit_length_lower: "0 < n \<Longrightarrow> 2 ^ (bit_length n - 1) \<le> n"
proof (induction n rule: bit_length.induct)
  case (1 n)
  then have n: "n \<noteq> 0" by simp
  show ?case
  proof (cases "n div 2 = 0")
    case True
    then have "bit_length n = 1"
      using n by (subst bit_length.simps) (simp add: bit_length.simps [of 0])
    with 1 show ?thesis by simp
  next
    case False
    with 1 n have "2 ^ (bit_length (n div 2) - 1) \<le> n div 2"
      by simp
    moreover have "bit_length (n div 2) > 0"
      using False by (subst bit_length.simps) simp
    ultimately have "2 ^ bit_length (n div 2) \<le> 2 * (n div 2)"
      by (cases "bit_length (n div 2)") simp_all
    then have "2 ^ bit_length (n div 2) \<le> n"
      by linarith
    then show ?thesis
      using n by (subst bit_length.simps) simp
  qed
qed

lemma bit_length_pos: "0 < n \<Longrightarrow> 0 < bit_length n"
  by (subst bit_length.simps) simp

lemma bit_length_le: "n < 2 ^ k \<Longrightarrow> bit_length n \<le> k"
proof (rule ccontr)
  assume n: "n < 2 ^ k" and "\<not> bit_length n \<le> k"
  then have k: "k \<le> bit_length n - 1" and pos: "0 < n"
    by (auto intro: ccontr simp: bit_length.simps [of 0])
  have "(2::nat) ^ k \<le> 2 ^ (bit_length n - 1)"
    using k by (simp add: power_increasing)
  also have "\<dots> \<le> n"
    by (rule bit_length_lower [OF pos])
  finally show False
    using n by simp
qed

lemma nearest_even_upper:
  assumes "0 < d" and "n \<le> k * d"
  shows "nearest_even n d \<le> k"
proof (cases "n div d < k")
  case True
  then show ?thesis by (simp add: nearest_even_def Let_def)
next
  case False
  from assms have "n div d \<le> k"
    by (metis div_le_mono div_mult_self_is_m)
  with False have q: "n div d = k" by simp
  then have "k * d \<le> n"
    by (metis div_times_less_eq_dividend)
  with assms(2) have "n = k * d" by simp
  then have "n mod d = 0" by simp
  with q assms(1) show ?thesis by (simp add: nearest_even_def Let_def)
qed

lemma nearest_even_lower:
  assumes "0 < d" and "k * d \<le> n"
  shows "k \<le> nearest_even n d"
proof -
  from assms have "k \<le> n div d"
    by (metis div_le_mono div_mult_self_is_m)
  then show ?thesis by (simp add: nearest_even_def Let_def)
qed

lemma nearest_even_above:
  assumes "0 < d" and "k * d \<le> n" and "d < 2 * (n - k * d)"
  shows "k + 1 \<le> nearest_even n d"
proof (cases "k < n div d")
  case True
  then show ?thesis by (simp add: nearest_even_def Let_def)
next
  case False
  from assms have "k \<le> n div d"
    by (metis div_le_mono div_mult_self_is_m)
  with False have q: "n div d = k" by simp
  have "n mod d = n - k * d"
    using q by (metis minus_div_mult_eq_mod)
  with assms(3) q show ?thesis by (simp add: nearest_even_def Let_def)
qed

lemma nearest_even_multiple: "0 < d \<Longrightarrow> nearest_even (k * d) d = k"
  by (simp add: nearest_even_def Let_def)


lemma scaled_bounds:
  fixes a b A B S K :: nat
  assumes p: "S * A = K * B" and A: "0 < A" and K: "0 < K"
  shows "b * A \<le> a * B \<Longrightarrow> K * b \<le> a * S"
    and "a * B < b * A \<Longrightarrow> a * S < K * b"
proof -
  have eq: "(a * S) * A = K * (a * B)"
  proof -
    have "(a * S) * A = a * (S * A)"
      by (simp only: mult.assoc)
    also have "\<dots> = a * (K * B)"
      by (simp only: p)
    also have "\<dots> = K * (a * B)"
      by (simp only: mult.left_commute)
    finally show ?thesis .
  qed
  have eq': "(K * b) * A = K * (b * A)"
    by (simp only: mult.assoc)
  show "K * b \<le> a * S" if "b * A \<le> a * B"
  proof -
    from that have "K * (b * A) \<le> K * (a * B)"
      by (rule mult_le_mono2)
    then have "(K * b) * A \<le> (a * S) * A"
      by (simp only: eq eq')
    with A show ?thesis
      by simp
  qed
  show "a * S < K * b" if "a * B < b * A"
  proof -
    from that K have "K * (a * B) < K * (b * A)"
      by simp
    then have "(a * S) * A < (K * b) * A"
      by (simp only: eq eq')
    then show ?thesis
      by simp
  qed
qed

lemma float_div_fine:
  assumes a: "0 < a" and b: "0 < b" and small: "a < 2 ^ 24 * b"
  obtains sh where "float_div a b = (nearest_even (a * 2 ^ sh) b, 2 ^ sh)"
    and "2 ^ 23 * b \<le> a * 2 ^ sh" and "a * 2 ^ sh < 2 ^ 24 * b"
proof -
  define la where "la = bit_length a"
  define lb where "lb = bit_length b"
  have a_up: "a < 2 ^ la" and b_up: "b < 2 ^ lb"
    by (simp_all add: la_def lb_def bit_length_upper)
  have la: "0 < la" and lb: "0 < lb"
    using a b by (simp_all add: la_def lb_def bit_length_pos)
  have "2 ^ (la - 1) \<le> a"
    using bit_length_lower [OF a] by (simp add: la_def)
  then have a_lo: "2 ^ la \<le> 2 * a"
    using la by (cases la) simp_all
  have "2 ^ (lb - 1) \<le> b"
    using bit_length_lower [OF b] by (simp add: lb_def)
  then have b_lo: "2 ^ lb \<le> 2 * b"
    using lb by (cases lb) simp_all
  have pos: "(0::nat) < 2 ^ la" "(0::nat) < 2 ^ 23" "(0::nat) < 2 ^ 24"
    by simp_all
  have below: "a * 2 ^ lb < (2 * b) * 2 ^ la"
  proof -
    have "a * 2 ^ lb < 2 ^ la * 2 ^ lb"
      using a_up by simp
    also have "\<dots> \<le> 2 ^ la * (2 * b)"
      using b_lo by (rule mult_le_mono2)
    finally show ?thesis
      by (simp only: mult.commute)
  qed
  have above: "b * 2 ^ la \<le> (2 * a) * 2 ^ lb"
  proof -
    have "b * 2 ^ la \<le> 2 ^ lb * 2 ^ la"
      using b_up by simp
    also have "\<dots> \<le> 2 ^ lb * (2 * a)"
      using a_lo by (rule mult_le_mono2)
    finally show ?thesis
      by (simp only: mult.commute)
  qed
  show thesis
  proof (cases "a * 2 ^ lb < b * 2 ^ la")
    case False
    then have ge: "b * 2 ^ la \<le> a * 2 ^ lb"
      by simp
    have "la \<le> lb + 23"
    proof (rule ccontr)
      assume "\<not> la \<le> lb + 23"
      then have "lb + 24 \<le> la" by simp
      then have "(2::nat) ^ (lb + 24) \<le> 2 ^ la"
        by (simp add: power_increasing)
      then have "b * 2 ^ (lb + 24) \<le> b * 2 ^ la"
        by (rule mult_le_mono2)
      then have "b * 2 ^ (lb + 24) \<le> a * 2 ^ lb"
        using ge by (rule order_trans)
      moreover have "b * 2 ^ (lb + 24) = (2 ^ 24 * b) * 2 ^ lb"
        by (simp add: power_add)
      ultimately have "(2 ^ 24 * b) * 2 ^ lb \<le> a * 2 ^ lb"
        by simp
      then have "2 ^ 24 * b \<le> a"
        by simp
      with small show False by simp
    qed
    define sh where "sh = lb + 23 - la"
    have eq: "sh + la = 23 + lb"
      using \<open>la \<le> lb + 23\<close> by (simp add: sh_def)
    have p: "(2::nat) ^ sh * 2 ^ la = 2 ^ 23 * 2 ^ lb"
      using eq by (metis power_add)
    from lb obtain m where m: "lb = Suc m"
      by (cases lb) simp_all
    have p': "(2::nat) ^ sh * 2 ^ la = 2 ^ 24 * 2 ^ m"
      using p by (simp add: m)
    have e: "23 - (int la - int lb - (if a * 2 ^ lb < b * 2 ^ la then 1 else 0)) = int sh"
      using False \<open>la \<le> lb + 23\<close> by (simp add: sh_def)
    have fd: "float_div a b = (nearest_even (a * 2 ^ sh) b, 2 ^ sh)"
      using a e by (simp add: float_div_def Let_def la_def [symmetric] lb_def [symmetric])
    have lo: "2 ^ 23 * b \<le> a * 2 ^ sh"
      using ge by (rule scaled_bounds(1) [OF p pos(1) pos(2)])
    have "a * 2 ^ m < b * 2 ^ la"
      using below by (simp add: m)
    then have up: "a * 2 ^ sh < 2 ^ 24 * b"
      by (rule scaled_bounds(2) [OF p' pos(1) pos(3)])
    from fd lo up show thesis by (rule that)
  next
    case True
    have "la \<le> lb + 24"
    proof (rule ccontr)
      assume "\<not> la \<le> lb + 24"
      then have "lb + 25 \<le> la" by simp
      then have "(2::nat) ^ (lb + 25) \<le> 2 ^ la"
        by (simp add: power_increasing)
      then have "(2::nat) ^ (lb + 25) \<le> 2 * a"
        using a_lo by (rule order_trans)
      then have "2 ^ 24 * 2 ^ lb \<le> a"
        by (simp add: power_add)
      moreover have "2 ^ 24 * b < 2 ^ 24 * 2 ^ lb"
        using b_up by simp
      ultimately show False
        using small by simp
    qed
    define sh where "sh = lb + 24 - la"
    have eq: "sh + la = 24 + lb"
      using \<open>la \<le> lb + 24\<close> by (simp add: sh_def)
    have p: "(2::nat) ^ sh * 2 ^ la = 2 ^ 24 * 2 ^ lb"
      using eq by (metis power_add)
    have p': "(2::nat) ^ sh * 2 ^ la = 2 ^ 23 * 2 ^ (lb + 1)"
      using p by simp
    have e: "23 - (int la - int lb - (if a * 2 ^ lb < b * 2 ^ la then 1 else 0)) = int sh"
      using True \<open>la \<le> lb + 24\<close> by (simp add: sh_def)
    have fd: "float_div a b = (nearest_even (a * 2 ^ sh) b, 2 ^ sh)"
      using a e by (simp add: float_div_def Let_def la_def [symmetric] lb_def [symmetric])
    have "b * 2 ^ la \<le> a * 2 ^ (lb + 1)"
      using above by (simp add: mult_ac)
    then have lo: "2 ^ 23 * b \<le> a * 2 ^ sh"
      by (rule scaled_bounds(1) [OF p' pos(1) pos(2)])
    have up: "a * 2 ^ sh < 2 ^ 24 * b"
      using True by (rule scaled_bounds(2) [OF p pos(1) pos(3)])
    from fd lo up show thesis by (rule that)
  qed
qed


lemma float_of_uint_exact:
  assumes "n \<le> 2 ^ 24"
  shows "float_of_uint n = n"
proof (cases "n = 2 ^ 24")
  case True
  then show ?thesis
    by (simp add: float_of_uint_def nearest_even_def Let_def bit_length_numeral)
next
  case False
  with assms have "n < 2 ^ 24" by simp
  then have "bit_length n \<le> 24"
    by (rule bit_length_le)
  then show ?thesis
    by (simp add: float_of_uint_def nearest_even_def Let_def)
qed

lemma float_of_uint_large:
  assumes "2 ^ 24 \<le> n"
  shows "2 ^ 24 \<le> float_of_uint n"
proof -
  define L where "L = bit_length n"
  have pos: "0 < n"
    using assms by (simp add: order_less_le_trans [of 0 "2 ^ 24"])
  have "n < 2 ^ L"
    by (simp add: L_def bit_length_upper)
  with assms have big: "(2::nat) ^ 24 < 2 ^ L"
    by (rule order_le_less_trans)
  have L: "24 < L"
  proof (rule ccontr)
    assume "\<not> 24 < L"
    then have "L \<le> 24" by simp
    then have "(2::nat) ^ L \<le> 2 ^ 24"
      by (intro power_increasing) simp_all
    with big show False by simp
  qed
  define sh where "sh = L - 24"
  have split: "bit_length n = Suc (23 + sh)"
    using L by (simp add: sh_def L_def)
  have "2 ^ 23 * 2 ^ sh \<le> n"
    using bit_length_lower [OF pos] by (simp add: split power_add)
  then have m: "2 ^ 23 \<le> nearest_even n (2 ^ sh)"
    by (intro nearest_even_lower) simp_all
  have "0 < sh"
    using L by (simp add: sh_def)
  then have "(2::nat) ^ 1 \<le> 2 ^ sh"
    by (intro power_increasing) simp_all
  with m have "2 ^ 23 * 2 ^ 1 \<le> nearest_even n (2 ^ sh) * 2 ^ sh"
    by (rule mult_le_mono)
  then show ?thesis
    by (simp add: float_of_uint_def Let_def L_def [symmetric] sh_def [symmetric])
qed

lemma ceiling_quotient:
  fixes m D n :: nat
  assumes "0 < D" and "(n - 1) * D < m" and "m \<le> n * D"
  shows "float_ceil (m, D) = n"
proof -
  have n: "0 < n"
    using assms by (cases n) simp_all
  have "n * D \<le> m + D - 1"
  proof -
    have "n * D = (n - 1) * D + D"
      using n by (cases n) simp_all
    with assms(2) show ?thesis by simp
  qed
  moreover have "m + D - 1 < n * D + D"
    using assms(1,3) by simp
  ultimately have "(m + D - 1) div D = n"
    by (intro div_nat_eqI) (simp_all add: mult.commute)
  then show ?thesis by simp
qed

lemma float_quotient_at_most_one:
  assumes a: "0 < a" and le: "a \<le> b"
  shows "float_ceil (float_div a b) = 1"
proof -
  have b: "0 < b"
    using a le by simp
  have "a < 2 ^ 24 * b"
    using le b by (simp add: order_le_less_trans [of a b])
  with a b obtain sh where fd: "float_div a b = (nearest_even (a * 2 ^ sh) b, 2 ^ sh)"
    and lo: "2 ^ 23 * b \<le> a * 2 ^ sh"
    by (rule float_div_fine)
  have "1 * b \<le> 2 ^ 23 * b"
    by simp
  then have "1 * b \<le> a * 2 ^ sh"
    using lo by (rule order_trans)
  then have m1: "1 \<le> nearest_even (a * 2 ^ sh) b"
    using b by (intro nearest_even_lower)
  have "a * 2 ^ sh \<le> 2 ^ sh * b"
    using le by (simp add: mult.commute)
  then have m2: "nearest_even (a * 2 ^ sh) b \<le> 2 ^ sh"
    using b by (intro nearest_even_upper)
  show ?thesis
    unfolding fd using m1 m2 by (intro ceiling_quotient) simp_all
qed


lemma float_quotient_above_one:
  assumes ba: "b < a" and b: "0 < b" and a24: "a \<le> 2 ^ 24"
  shows "float_ceil (float_div a b) = (a + b - 1) div b"
proof (cases "a < 2 ^ 24 * b")
  case False
  then have "2 ^ 24 * b \<le> a" by simp
  with a24 have "2 ^ 24 * b \<le> 2 ^ 24 * 1"
    by simp
  then have "b \<le> 1"
    by (simp only: mult_le_cancel1) simp
  with b have b1: "b = 1" by simp
  with False a24 have "a = 2 ^ 24" by simp
  with b1 show ?thesis
    by (simp add: float_div_def nearest_even_def Let_def bit_length_numeral)
next
  case True
  have a: "0 < a"
    using ba by simp
  from a b True obtain sh where fd: "float_div a b = (nearest_even (a * 2 ^ sh) b, 2 ^ sh)"
    and lo: "2 ^ 23 * b \<le> a * 2 ^ sh"
    by (rule float_div_fine)
  define D :: nat where "D = 2 ^ sh"
  define n where "n = (a + b - 1) div b"
  define r where "r = a - (n - 1) * b"
  have D: "0 < D"
    by (simp add: D_def)
  have "n * b + (a + b - 1) mod b = a + b - 1"
    by (simp add: n_def)
  moreover have "(a + b - 1) mod b < b"
    using b by simp
  ultimately have nb: "a \<le> n * b" and nb': "n * b < a + b"
    using a by linarith+
  have n: "0 < n"
    using nb a by (cases n) simp_all
  have split: "n * b = (n - 1) * b + b"
    using n by (cases n) simp_all
  have below: "(n - 1) * b < a"
    using nb' split by simp
  have r: "0 < r" and ar: "a = (n - 1) * b + r"
    using below by (simp_all add: r_def)
  have upper: "nearest_even (a * D) b \<le> n * D"
  proof (rule nearest_even_upper [OF b])
    have "a * D \<le> (n * b) * D"
      using nb by (rule mult_le_mono1)
    then show "a * D \<le> n * D * b"
      by (simp only: mult.assoc mult.commute [of b D])
  qed
  have scaled: "a * D = ((n - 1) * D) * b + r * D"
  proof -
    have "a * D = ((n - 1) * b + r) * D"
      by (simp only: ar [symmetric])
    also have "\<dots> = ((n - 1) * b) * D + r * D"
      by (rule add_mult_distrib)
    also have "((n - 1) * b) * D = ((n - 1) * D) * b"
      by (simp only: mult.assoc mult.commute [of b D])
    finally show ?thesis .
  qed
  have b2D: "b \<le> 2 * D"
  proof -
    have "a * D \<le> 2 ^ 24 * D"
      using a24 by (rule mult_le_mono1)
    with lo have "2 ^ 23 * b \<le> 2 ^ 24 * D"
      unfolding D_def by (rule order_trans)
    then have "2 ^ 23 * b \<le> 2 ^ 23 * (2 * D)"
      by simp
    then show ?thesis
      by (simp only: mult_le_cancel1) simp
  qed
  have wide: "b < 2 * (r * D)"
  proof (cases "r = 1")
    case False
    with r have "2 \<le> r" by simp
    then have "2 * D \<le> r * D"
      by (rule mult_le_mono1)
    with b2D D show ?thesis by linarith
  next
    case True
    have "b \<noteq> 2 * D"
    proof
      assume eq: "b = 2 * D"
      with lo have "2 ^ 23 * (2 * D) \<le> a * D"
        by (simp add: D_def)
      then have "2 ^ 24 * D \<le> a * D"
        by simp
      then have "2 ^ 24 \<le> a"
        using D by simp
      with a24 have "a = 2 ^ 24" by simp
      then have "even a" by simp
      moreover have "odd a"
        using ar True eq by simp
      ultimately show False by simp
    qed
    with b2D have "b < 2 * D" by simp
    with True show ?thesis by simp
  qed
  have lower: "(n - 1) * D < nearest_even (a * D) b"
  proof -
    have "(n - 1) * D + 1 \<le> nearest_even (a * D) b"
    proof (rule nearest_even_above [OF b])
      show "(n - 1) * D * b \<le> a * D"
        by (simp add: scaled)
      show "b < 2 * (a * D - (n - 1) * D * b)"
        using wide by (simp add: scaled)
    qed
    then show ?thesis by simp
  qed
  have "float_ceil (nearest_even (a * D) b, D) = n"
    using D lower upper by (rule ceiling_quotient)
  then show ?thesis
    by (simp only: fd D_def n_def)
qed

lemma float_quotient_exact:
  assumes "t \<le> 2 ^ 24" and "0 < g"
  shows "float_ceil (float_div (float_of_uint t) (float_of_uint g)) = (t + g - 1) div g"
proof -
  have a: "float_of_uint t = t"
    using assms(1) by (rule float_of_uint_exact)
  show ?thesis
  proof (cases "t = 0")
    case True
    with a have "float_of_uint 0 = 0"
      by simp
    with assms(2) show ?thesis
      by (simp add: True float_div_def)
  next
    case False
    then have t: "0 < t" by simp
    show ?thesis
    proof (cases "g \<le> 2 ^ 24")
      case True
      then have b: "float_of_uint g = g"
        by (rule float_of_uint_exact)
      show ?thesis
      proof (cases "t \<le> g")
        case True
        have "g * 1 \<le> t + g - 1" and "t + g - 1 < g * Suc 1"
          using t True by simp_all
        then have "(t + g - 1) div g = 1"
          by (rule div_nat_eqI)
        with float_quotient_at_most_one [OF t True] show ?thesis
          by (simp only: a b)
      next
        case False
        then have "g < t" by simp
        from float_quotient_above_one [OF this assms(2,1)] show ?thesis
          by (simp only: a b)
      qed
    next
      case False
      then have "2 ^ 24 \<le> g" by simp
      then have "2 ^ 24 \<le> float_of_uint g"
        by (rule float_of_uint_large)
      with assms(1) have le: "t \<le> float_of_uint g"
        by (rule order_trans)
      have tg: "t \<le> g"
        using assms(1) False by simp
      have "g * 1 \<le> t + g - 1" and "t + g - 1 < g * Suc 1"
        using t tg by simp_all
      then have "(t + g - 1) div g = 1"
        by (rule div_nat_eqI)
      with float_quotient_at_most_one [OF t le] show ?thesis
        by (simp only: a)
    qed
  qed
qed

text \<open>
  Up to \<open>2 ^ 24\<close> requested threads on an axis, and with a per-group size that is not
  zero, the count the code dispatches is the exact one, \<open>max(ceil(t / g), 1)\<close>.
\<close>

lemma groupCount_exact:
  assumes t: "unat desired \<le> 2 ^ 24" and g: "perGroup \<noteq> 0"
  shows "unat (groupCount conv desired perGroup) = exact_groupCount (unat desired) (unat perGroup)"
proof -
  define v where "v = (unat desired + unat perGroup - 1) div unat perGroup"
  have pos: "0 < unat perGroup"
    using g by (simp add: unat_gt_0)
  have fl: "float_ceil (float_div (float_of_uint (unat desired)) (float_of_uint (unat perGroup))) = v"
    unfolding v_def using t pos by (rule float_quotient_exact)
  have "v \<le> 2 ^ 25"
  proof (cases "unat desired \<le> unat perGroup")
    case True
    then have "unat desired + unat perGroup - 1 < unat perGroup * 2"
      using pos by simp
    then have "v < 2"
      unfolding v_def using pos by (simp add: less_mult_imp_div_less mult.commute)
    then show ?thesis by simp
  next
    case False
    have "v \<le> unat desired + unat perGroup - 1"
      unfolding v_def by (rule div_le_dividend)
    with False t show ?thesis by simp
  qed
  then have small: "v < 2 ^ 32"
    by simp
  then have u: "unat (word_of_nat v :: uint) = v"
    by (simp add: unsigned_of_nat take_bit_nat_eq_self)
  have gc: "groupCount conv desired perGroup
              = (if (word_of_nat v :: uint) > 1 then word_of_nat v else 1)"
    using g small by (simp add: groupCount_def Let_def fl)
  have ex: "exact_groupCount (unat desired) (unat perGroup) = max v 1"
    unfolding exact_groupCount_def v_def by (rule refl)
  show ?thesis
    using u by (simp add: gc ex word_less_nat_alt max_def)
qed

lemma groupCount_at_least_one: "1 \<le> groupCount conv desired perGroup"
  by (simp add: groupCount_def Let_def word_le_nat_alt word_less_nat_alt)

lemma DispatchByThreads_at_least_one:
  "\<exists>x y z. deviceContext (DispatchByThreads conv s tX tY tZ) = deviceContext s @ [Dispatch x y z]
     \<and> 1 \<le> x \<and> 1 \<le> y \<and> 1 \<le> z"
  by (simp add: DispatchByThreads_def groupCount_at_least_one)

lemma DispatchByThreads_example:
  "threadsX s = 5 \<Longrightarrow> threadsY s = 2 \<Longrightarrow> threadsZ s = 2 \<Longrightarrow>
     deviceContext (DispatchByThreads conv s 10 3 3) = deviceContext s @ [Dispatch 2 2 2]"
  by (simp add: DispatchByThreads_def groupCount_def float_defs)

text \<open>
  Claim C4 fails on the code. With 1024 threads per group on the X axis and
  \<open>2 ^ 24 + 1\<close> threads requested, the conversion to \<^verbatim>\<open>float\<close> loses the last thread:
  the call dispatches 16384 groups, which hold one thread less than requested, where
  \<open>max(ceil(t / g), 1)\<close> is 16385.
\<close>

theorem DispatchByThreads_falls_short:
  "deviceContext (DispatchByThreads conv (s\<lparr>threadsX := 1024, threadsY := 1, threadsZ := 1\<rparr>)
                   16777217 1 1)
     = deviceContext s @ [Dispatch 16384 1 1]
   \<and> exact_groupCount 16777217 1024 = 16385
   \<and> (16384 :: nat) * 1024 < 16777217"
  by (simp add: DispatchByThreads_def groupCount_def float_defs exact_groupCount_def)

end
